theory Spec2Isabelle
  imports Complex_Main
begin

section \<open>Numbers\<close>

text \<open>
  The durations of retry-lit are JavaScript numbers. They are modelled as exact reals;
  the one place where the source uses \<open>Infinity\<close> is the upper bound of a delay
  (the default of \<open>max\<close> in \<open>generateTimeouts\<close> and of \<open>maxTimeout\<close> in the
  options), so an upper bound is either \<open>Infinity\<close> or a finite number. Rounding
  errors, overflow and \<open>NaN\<close> of IEEE doubles are outside the model.
\<close>

datatype bound = Infinity | Finite real

text \<open>\<open>Math.round\<close>: the nearest integer, a tie going towards \<open>+Infinity\<close>.\<close>

definition Math_round :: "real \<Rightarrow> real" where
  "Math_round x = of_int \<lfloor>x + 1 / 2\<rfloor>"

text \<open>\<open>Math.min(x, max)\<close> where the second argument may be \<open>Infinity\<close>.\<close>

fun Math_min :: "real \<Rightarrow> bound \<Rightarrow> real" where
  "Math_min x Infinity = x"
| "Math_min x (Finite m) = min x m"

text \<open>\<open>x <= b\<close> and \<open>x > b\<close> for an upper bound \<open>b\<close>.\<close>

fun le_bound :: "real \<Rightarrow> bound \<Rightarrow> bool" where
  "le_bound x Infinity = True"
| "le_bound x (Finite m) = (x \<le> m)"

fun gt_bound :: "real \<Rightarrow> bound \<Rightarrow> bool" where
  "gt_bound x Infinity = False"
| "gt_bound x (Finite m) = (x > m)"

section \<open>The schedule generator (generate-timeouts)\<close>

text \<open>
  \<^verbatim>\<open>
  let timeouts = [];
  for (let i = 0; i < retries; i++) {
    let timeout = Math.min(Math.round(Math.max(min, 1) * factor ** i), max);
    timeouts.push(timeout);
  }
  return timeouts;
  \<close>
  The loop is a recursion on the counter \<open>i\<close> with the array built so far.
\<close>

function generateTimeouts_loop ::
  "nat \<Rightarrow> nat \<Rightarrow> real \<Rightarrow> bound \<Rightarrow> real \<Rightarrow> real list \<Rightarrow> real list" where
  "generateTimeouts_loop i retries mn mx factor timeouts =
     (if i < retries
      then let timeout = Math_min (Math_round (max mn 1 * factor ^ i)) mx
           in generateTimeouts_loop (i + 1) retries mn mx factor (timeouts @ [timeout])
      else timeouts)"
  by pat_completeness auto
termination
  by (relation "measure (\<lambda>(i, retries, _). retries - i)") auto

declare generateTimeouts_loop.simps [simp del]

definition generateTimeouts :: "nat \<Rightarrow> real \<Rightarrow> bound \<Rightarrow> real \<Rightarrow> real list" where
  "generateTimeouts retries mn mx factor = generateTimeouts_loop 0 retries mn mx factor []"

text \<open>
  The schedule as the specification words it: entry \<open>i\<close>, for \<open>i\<close> in
  \<open>0..retries-1\<close>, is \<open>min(round(effectiveMin * factor^i), max)\<close> with
  \<open>effectiveMin = max(min, 1)\<close>.
\<close>

definition spec_delay :: "real \<Rightarrow> bound \<Rightarrow> real \<Rightarrow> nat \<Rightarrow> real" where
  "spec_delay mn mx factor i = Math_min (Math_round (max mn 1 * factor ^ i)) mx"

definition spec_schedule :: "nat \<Rightarrow> real \<Rightarrow> bound \<Rightarrow> real \<Rightarrow> real list" where
  "spec_schedule retries mn mx factor = map (spec_delay mn mx factor) [0..<retries]"

section \<open>Failures\<close>

text \<open>
  A structured failure is an instance of \<open>Error\<close>. The engine distinguishes the class
  of a failure with \<open>instanceof\<close> and reads its \<open>message\<close>; the classes that matter
  are \<open>AbortError\<close> (which carries the wrapped \<open>originalError\<close>), \<open>TypeError\<close>,
  \<open>AttemptError\<close> (which carries \<open>attemptNumber\<close> and \<open>retriesLeft\<close>), plain
  \<open>Error\<close>, and any other subclass of \<open>Error\<close>, kept with the name of its class.
\<close>

datatype error =
    Error (message: string)
  | TypeError (message: string)
  | OtherError (className: string) (message: string)
  | AttemptErrorObj (message: string) (attemptNumber: nat) (retriesLeft: int)
  | AbortErrorObj (message: string) (originalError: error)

fun name :: "error \<Rightarrow> string" where
  "name (Error _) = ''Error''"
| "name (TypeError _) = ''TypeError''"
| "name (OtherError c _) = c"
| "name (AttemptErrorObj _ _ _) = ''AttemptError''"
| "name (AbortErrorObj _ _) = ''AbortError''"

text \<open>
  The constructor of \<open>AbortError\<close> takes a message or a failure: a failure is kept as
  \<open>originalError\<close> and its message is copied; a message is wrapped in a new \<open>Error\<close>.
\<close>

fun AbortError :: "string + error \<Rightarrow> error" where
  "AbortError (Inr e) = AbortErrorObj (message e) e"
| "AbortError (Inl msg) = AbortErrorObj msg (Error msg)"

text \<open>
  The constructor of \<open>AttemptError\<close> sets name and message; both counters start at 0
  and are assigned by the engine afterwards.
\<close>

definition AttemptError :: "string \<Rightarrow> error" where
  "AttemptError msg = AttemptErrorObj msg 0 0"

fun assign_counts :: "error \<Rightarrow> nat \<Rightarrow> int \<Rightarrow> error" where
  "assign_counts (AttemptErrorObj msg _ _) n r = AttemptErrorObj msg n r"
| "assign_counts e _ _ = e"

fun instanceof_AbortError :: "error \<Rightarrow> bool" where
  "instanceof_AbortError (AbortErrorObj _ _) = True"
| "instanceof_AbortError _ = False"

fun instanceof_TypeError :: "error \<Rightarrow> bool" where
  "instanceof_TypeError (TypeError _) = True"
| "instanceof_TypeError _ = False"

definition networkErrorMsgs :: "string list" where
  "networkErrorMsgs =
     [''Failed to fetch'',
      ''NetworkError when attempting to fetch resource.'',
      ''The Internet connection appears to be offline.'',
      ''Network request failed'']"

definition isNetworkError :: "string \<Rightarrow> bool" where
  "isNetworkError errorMessage = (errorMessage \<in> set networkErrorMsgs)"

text \<open>
  What a JavaScript function can throw: a structured failure, or any other value, of
  which the engine only uses the string that a template literal renders.
\<close>

datatype thrown = NonError string | Failure error

text \<open>
  The operation \<open>input\<close> is called with the attempt number and is awaited: it produces
  a value, or it throws (or rejects with) something. The attempt number grows by one
  with every call, so a function of the attempt number covers a stateful operation.
\<close>

datatype 'a outcome = Returns 'a | Throws thrown

text \<open>
  How the promise of the engine settles. A rejection carries what was passed to
  \<open>reject\<close>; \<open>None\<close> is the \<open>null\<close> that \<open>mainError\<close> can return.
\<close>

datatype 'a settled = Resolved 'a | Rejected "thrown option"

section \<open>Options\<close>

text \<open>
  The caller's options are all optional; \<open>retry\<close> spreads them over the defaults.
  The observer \<open>onFailedAttempt\<close> is awaited: it completes (\<open>None\<close>) or throws.
  The number of retries is taken to be a non-negative integer.
\<close>

record RetryOptions =
  onFailedAttempt_opt :: "(error \<Rightarrow> thrown option) option"
  retries_opt :: "nat option"
  factor_opt :: "real option"
  minTimeout_opt :: "real option"
  maxTimeout_opt :: "bound option"

record opts =
  onFailedAttempt :: "error \<Rightarrow> thrown option"
  retries :: nat
  factor :: real
  minTimeout :: real
  maxTimeout :: bound

definition merge_options :: "RetryOptions \<Rightarrow> opts" where
  "merge_options options =
     \<lparr>onFailedAttempt =
        (case onFailedAttempt_opt options of None \<Rightarrow> (\<lambda>_. None) | Some f \<Rightarrow> f),
      retries = (case retries_opt options of None \<Rightarrow> 3 | Some n \<Rightarrow> n),
      factor = (case factor_opt options of None \<Rightarrow> 2 | Some f \<Rightarrow> f),
      minTimeout = (case minTimeout_opt options of None \<Rightarrow> 1000 | Some t \<Rightarrow> t),
      maxTimeout = (case maxTimeout_opt options of None \<Rightarrow> Infinity | Some t \<Rightarrow> t)\<rparr>"

definition no_options :: RetryOptions where
  "no_options =
     \<lparr>onFailedAttempt_opt = None, retries_opt = None, factor_opt = None,
      minTimeout_opt = None, maxTimeout_opt = None\<rparr>"

section \<open>The state of one retry session\<close>

text \<open>
  The variables that the closures of \<open>retry\<close> share. \<open>timeoutId\<close> holds the delay of
  the timer set last. \<open>maxRetryTime\<close> is \<open>timeouts[timeouts.length - 1]\<close>, which is
  \<open>undefined\<close> (here \<open>None\<close>) for an empty schedule.
\<close>

record state =
  timeouts :: "real list"
  errors :: "error list"
  operationStart :: int
  attempts :: nat
  timeoutId :: "real option"
  maxRetryTime :: "real option"

definition last_entry :: "real list \<Rightarrow> real option" where
  "last_entry ts = (if ts = [] then None else Some (last ts))"

text \<open>
  \<open>x >= y\<close> where \<open>y\<close> may be \<open>undefined\<close>: \<open>undefined\<close> converts to \<open>NaN\<close>,
  and every comparison with \<open>NaN\<close> is false.
\<close>

fun ge_undefined :: "real \<Rightarrow> real option \<Rightarrow> bool" where
  "ge_undefined x None = False"
| "ge_undefined x (Some y) = (x \<ge> y)"

text \<open>
  The inner function \<open>retry(err)\<close>, called with the reading of the clock that it takes.
  Its first test, \<open>if (!err) return false\<close>, never fires: \<open>err\<close> is an object.
  \<^verbatim>\<open>
  if (err && currentTime - operationStart >= maxRetryTime) {
    errors.push(err);
    errors.unshift(new Error('Maximum retry timeout reached'));
    return false;
  }
  errors.push(err);
  let timeout = timeouts.shift();
  if (timeout === undefined) return false;
  timeoutId = setTimeout(() => { attempts++; fn(attempts); }, timeout);
  return true;
  \<close>
\<close>

definition retry_inner :: "int \<Rightarrow> error \<Rightarrow> state \<Rightarrow> bool \<times> state" where
  "retry_inner currentTime err s =
     (if ge_undefined (of_int (currentTime - operationStart s)) (maxRetryTime s)
      then (False, s\<lparr>errors := Error ''Maximum retry timeout reached'' # (errors s @ [err])\<rparr>)
      else
        (let s1 = s\<lparr>errors := errors s @ [err]\<rparr> in
         case timeouts s1 of
           [] \<Rightarrow> (False, s1)
         | timeout # rest \<Rightarrow> (True, s1\<lparr>timeouts := rest, timeoutId := Some timeout\<rparr>)))"

text \<open>
  \<open>stop\<close> clears the timer and empties the schedule. It is only called while no timer
  is pending (the timer set last has fired to start the current attempt).
\<close>

definition stop :: "state \<Rightarrow> state" where
  "stop s = s\<lparr>timeouts := []\<rparr>"

section \<open>The representative failure\<close>

text \<open>
  \<open>mainError\<close> counts the messages in \<open>counts\<close>, an object literal \<open>{}\<close> used as a
  dictionary:
  \<^verbatim>\<open>
  let count = (counts[message] || 0) + 1;
  counts[message] = count;
  if (count >= mainErrorCount) { mainError = error; mainErrorCount = count; }
  \<close>
  An object literal inherits the properties of \<open>Object.prototype\<close>. For a message that
  names one of them, \<open>counts[message]\<close> is a function (or, for \<open>__proto__\<close>, an
  object), which is truthy; adding 1 to it concatenates strings; the string is stored (or
  ignored, for \<open>__proto__\<close>) and found again by the next lookup; and \<open>count >=
  mainErrorCount\<close> compares \<open>NaN\<close> with a number, which is false. Such a message is
  never counted. For every other message the lookup yields the number stored before, or
  \<open>undefined\<close>, which \<open>|| 0\<close> replaces by 0.
\<close>

definition objectPrototypeKeys :: "string list" where
  "objectPrototypeKeys =
     [''constructor'', ''__defineGetter__'', ''__defineSetter__'', ''hasOwnProperty'',
      ''__lookupGetter__'', ''__lookupSetter__'', ''isPrototypeOf'',
      ''propertyIsEnumerable'', ''toString'', ''valueOf'', ''__proto__'',
      ''toLocaleString'']"

text \<open>\<open>(counts[message] || 0) + 1\<close>: a number, or \<open>None\<close> when it is not a number.\<close>

definition next_count :: "(string \<rightharpoonup> nat) \<Rightarrow> string \<Rightarrow> nat option" where
  "next_count counts msg =
     (if msg \<in> set objectPrototypeKeys then None
      else Some ((case counts msg of None \<Rightarrow> 0 | Some c \<Rightarrow> c) + 1))"

fun mainError_loop ::
  "error list \<Rightarrow> (string \<rightharpoonup> nat) \<Rightarrow> error option \<Rightarrow> nat \<Rightarrow> error option" where
  "mainError_loop [] counts mainErr mainErrorCount = mainErr"
| "mainError_loop (error # rest) counts mainErr mainErrorCount =
     (let msg = message error in
      case next_count counts msg of
        None \<Rightarrow> mainError_loop rest counts mainErr mainErrorCount
      | Some count \<Rightarrow>
          (let counts' = counts(msg \<mapsto> count) in
           if count \<ge> mainErrorCount
           then mainError_loop rest counts' (Some error) count
           else mainError_loop rest counts' mainErr mainErrorCount))"

definition mainError :: "error list \<Rightarrow> error option" where
  "mainError errs =
     (if length errs = 0 then None else mainError_loop errs Map.empty None 0)"

text \<open>
  The running count of entry \<open>i\<close> of an accumulator: how often its message occurs up to
  and including entry \<open>i\<close>.
\<close>

definition running_count :: "error list \<Rightarrow> nat \<Rightarrow> nat" where
  "running_count errs i = count_list (map message (take (Suc i) errs)) (message (errs ! i))"

section \<open>The attempt callback\<close>

text \<open>
  One call of the asynchronous callback that \<open>retry\<close> passes to \<open>attempt\<close>: it either
  settles the promise, or sets the timer for the next attempt. Either way it reports the
  values that it handed to the observer.

  The embedding follows the TypeScript source of the engine, which the package declares
  as its source and which the tests exercise: the observer receives a new
  \<open>AttemptError\<close>. The JavaScript variant of the file computes the same two counters
  (\<open>decorateErrorWithCounts\<close>) but assigns them to the thrown failure itself and
  hands that to the observer; the two variants agree in everything else.
\<close>

datatype 'a step =
    Settled "'a settled" "error list" state
  | Scheduled error state

definition non_error_message :: "string \<Rightarrow> string" where
  "non_error_message str =
     ''Non-error was thrown: '' @ [CHR 0x22] @ str @ [CHR 0x22]
       @ ''. You should only throw errors.''"

definition fn ::
  "(nat \<Rightarrow> 'a outcome) \<Rightarrow> opts \<Rightarrow> (nat \<Rightarrow> int) \<Rightarrow> nat \<Rightarrow> state \<Rightarrow> 'a step" where
  "fn input opts getTime attempt_number s =
     (case input attempt_number of
        Returns v \<Rightarrow> Settled (Resolved v) [] s
      | Throws (NonError str) \<Rightarrow>
          Settled (Rejected (Some (Failure (TypeError (non_error_message str))))) [] s
      | Throws (Failure err) \<Rightarrow>
          if instanceof_AbortError err then
            Settled (Rejected (Some (Failure (originalError err)))) [] (stop s)
          else if instanceof_TypeError err \<and> \<not> isNetworkError (message err) then
            Settled (Rejected (Some (Failure err))) [] (stop s)
          else
            (let retries_left = int (retries opts) - (int attempt_number - 1);
                 attemptErr =
                   assign_counts (AttemptError (message err)) attempt_number retries_left
             in case onFailedAttempt opts attemptErr of
                  Some error \<Rightarrow> Settled (Rejected (Some error)) [attemptErr] s
                | None \<Rightarrow>
                    (case retry_inner (getTime attempt_number) err s of
                       (False, s') \<Rightarrow>
                         Settled (Rejected (map_option Failure (mainError (errors s'))))
                           [attemptErr] s'
                     | (True, s') \<Rightarrow> Scheduled attemptErr s')))"

section \<open>The engine\<close>

text \<open>
  What one retry session did: how the promise settled, the attempt numbers with which
  the operation was called, the values handed to the observer, the delays handed to
  \<open>setTimeout\<close>, and the error accumulator at the end.
\<close>

record 'a run =
  settled :: "'a settled"
  calls :: "nat list"
  observed :: "error list"
  timers :: "real list"
  accumulator :: "error list"

text \<open>
  The callback runs with the current attempt number; when it has set a timer, the timer
  fires (\<open>attempts++; fn(attempts)\<close>) and the callback runs again. The clock is read
  once when the session starts (\<open>getTime 0\<close>) and once in every call of the inner
  \<open>retry\<close> (\<open>getTime n\<close> in attempt \<open>n\<close>).
\<close>

function run_attempts ::
  "(nat \<Rightarrow> 'a outcome) \<Rightarrow> opts \<Rightarrow> (nat \<Rightarrow> int) \<Rightarrow> state \<Rightarrow> 'a run" where
  "run_attempts input opts getTime s =
     (case fn input opts getTime (attempts s) s of
        Settled outcome obs s' \<Rightarrow>
          \<lparr>settled = outcome, calls = [attempts s], observed = obs, timers = [],
           accumulator = errors s'\<rparr>
      | Scheduled attemptErr s' \<Rightarrow>
          (let r = run_attempts input opts getTime (s'\<lparr>attempts := attempts s' + 1\<rparr>)
           in r\<lparr>calls := attempts s # calls r, observed := attemptErr # observed r,
                 timers := (case timeoutId s' of None \<Rightarrow> [] | Some t \<Rightarrow> [t]) @ timers r\<rparr>))"
  by pat_completeness auto
termination
  by (relation "measure (\<lambda>(input, opts, getTime, s). length (timeouts s))")
     (auto simp: fn_def retry_inner_def Let_def
        split: outcome.splits thrown.splits if_splits option.splits list.splits)

declare run_attempts.simps [simp del]

text \<open>\<open>attempt\<close> reads the clock into \<open>operationStart\<close> and makes the first call.\<close>

definition attempt ::
  "(nat \<Rightarrow> 'a outcome) \<Rightarrow> opts \<Rightarrow> (nat \<Rightarrow> int) \<Rightarrow> state \<Rightarrow> 'a run" where
  "attempt input opts getTime s =
     run_attempts input opts getTime (s\<lparr>operationStart := getTime 0\<rparr>)"

text \<open>
  The variables as \<open>retry\<close> declares them: the generated schedule, no errors,
  attempt number 1, no timer, and \<open>maxRetryTime\<close> read from the end of the schedule.
  \<open>operationStart\<close> is declared without a value and set by \<open>attempt\<close>.
\<close>

definition initial_state :: "opts \<Rightarrow> state" where
  "initial_state opts =
     (let ts = generateTimeouts (retries opts) (minTimeout opts) (maxTimeout opts)
                 (factor opts)
      in \<lparr>timeouts = ts, errors = [], operationStart = 0, attempts = 1,
          timeoutId = None, maxRetryTime = last_entry ts\<rparr>)"

text \<open>
  The body of the function passed to \<open>new Promise\<close>: it merges the options, throws
  the configuration failure when \<open>minTimeout > maxTimeout\<close>, and otherwise starts the
  session.
\<close>

definition executor ::
  "(nat \<Rightarrow> 'a outcome) \<Rightarrow> RetryOptions \<Rightarrow> (nat \<Rightarrow> int) \<Rightarrow> thrown + 'a run" where
  "executor input options getTime =
     (let opts = merge_options options in
      if gt_bound (minTimeout opts) (maxTimeout opts)
      then Inl (Failure (Error ''minTimeout must be less than maxTimeout''))
      else Inr (attempt input opts getTime (initial_state opts)))"

text \<open>
  \<open>new Promise(executor)\<close> runs the executor at once; an exception that the executor
  throws does not leave the constructor, it rejects the new promise.
\<close>

definition new_Promise :: "thrown + 'a run \<Rightarrow> 'a run" where
  "new_Promise body =
     (case body of
        Inl e \<Rightarrow>
          \<lparr>settled = Rejected (Some e), calls = [], observed = [], timers = [],
           accumulator = []\<rparr>
      | Inr r \<Rightarrow> r)"

text \<open>
  A call of \<open>retry\<close> completes by throwing to its caller or by returning a promise.
  Its body is \<open>return new Promise(...)\<close>.
\<close>

datatype 'a completion = ThrowsSync thrown | ReturnsPromise "'a run"

definition retry ::
  "(nat \<Rightarrow> 'a outcome) \<Rightarrow> RetryOptions \<Rightarrow> (nat \<Rightarrow> int) \<Rightarrow> 'a completion" where
  "retry input options getTime =
     ReturnsPromise (new_Promise (executor input options getTime))"

section \<open>Notions used to state the properties\<close>

text \<open>
  The failures that reach the last branch of the callback: neither an \<open>AbortError\<close>
  nor a \<open>TypeError\<close> whose message is not a known network error message.
\<close>

definition retryable :: "error \<Rightarrow> bool" where
  "retryable err =
     (\<not> instanceof_AbortError err \<and> \<not> (instanceof_TypeError err \<and> \<not> isNetworkError (message err)))"

definition retryable_at :: "(nat \<Rightarrow> 'a outcome) \<Rightarrow> nat \<Rightarrow> bool" where
  "retryable_at input k =
     (case input k of Throws (Failure err) \<Rightarrow> retryable err | _ \<Rightarrow> False)"

text \<open>The value that the callback hands to the observer in attempt \<open>n\<close>.\<close>

definition attemptErr_of :: "opts \<Rightarrow> nat \<Rightarrow> error \<Rightarrow> error" where
  "attemptErr_of opts n err =
     AttemptErrorObj (message err) n (int (retries opts) - (int n - 1))"

text \<open>The test of the time budget that the inner \<open>retry\<close> makes in attempt \<open>n\<close>.\<close>

definition expired :: "(nat \<Rightarrow> int) \<Rightarrow> nat \<Rightarrow> state \<Rightarrow> bool" where
  "expired getTime n s =
     ge_undefined (of_int (getTime n - operationStart s)) (maxRetryTime s)"

text \<open>An operation that fails in every attempt with a plain \<open>Error\<close> of one message.\<close>

definition always_fails :: "string \<Rightarrow> nat \<Rightarrow> unit outcome" where
  "always_fails msg n = Throws (Failure (Error msg))"

text \<open>An observer that throws when it is handed the failure of the second attempt.\<close>

definition throwing_observer :: "error \<Rightarrow> thrown option" where
  "throwing_observer a =
     (if attemptNumber a = 2 then Some (Failure (Error ''thrown from onFailedAttempt''))
      else None)"

text \<open>Options whose \<open>minTimeout\<close> exceeds their \<open>maxTimeout\<close>.\<close>

definition inverted_timeouts :: RetryOptions where
  "inverted_timeouts =
     no_options\<lparr>minTimeout_opt := Some 2000, maxTimeout_opt := Some (Finite 1000)\<rparr>"

text \<open>An operation that throws the same failure in every attempt.\<close>

definition throws_always :: "error \<Rightarrow> nat \<Rightarrow> unit outcome" where
  "throws_always err n = Throws (Failure err)"

text \<open>The state in which a session with the default options starts, the clock reading 0.\<close>

definition default_start :: state where
  "default_start = (initial_state (merge_options no_options))\<lparr>operationStart := 0\<rparr>"

text \<open>The default options with \<open>retries = 0\<close>.\<close>

definition zero_retries :: RetryOptions where
  "zero_retries = no_options\<lparr>retries_opt := Some 0\<rparr>"

text \<open>Entry \<open>k\<close> is the most recent entry whose running count is the highest: no entry has a
  higher running count, and every later entry has a lower one.\<close>

definition is_representative :: "error list \<Rightarrow> nat \<Rightarrow> bool" where
  "is_representative errs k =
     (k < length errs
      \<and> (\<forall>j<length errs. running_count errs j \<le> running_count errs k)
      \<and> (\<forall>j<length errs. k < j \<longrightarrow> running_count errs j < running_count errs k))"

text \<open>What the loop of \<open>mainError\<close> tracks after the entries \<open>pre\<close>: nothing yet, or the
  representative of \<open>pre\<close> and its running count.\<close>

definition tracked :: "error list \<Rightarrow> error option \<Rightarrow> nat \<Rightarrow> bool" where
  "tracked pre mainErr mc =
     (if pre = [] then mainErr = None \<and> mc = 0
      else \<exists>k<length pre.
             is_representative pre k \<and> mainErr = Some (pre ! k) \<and> mc = running_count pre k)"

section \<open>Properties of the schedule generator\<close>

lemma generateTimeouts_loop_map:
  "generateTimeouts_loop i n mn mx f acc =
     acc @ map (spec_delay mn mx f) [i..<n]"
proof (induction i n mn mx f acc rule: generateTimeouts_loop.induct)
  case (1 i n mn mx f acc)
  show ?case
  proof (cases "i < n")
    case True
    then have "[i..<n] = i # [i + 1..<n]"
      by (simp add: upt_conv_Cons)
    with True "1" show ?thesis
      by (subst generateTimeouts_loop.simps) (simp add: spec_delay_def)
  next
    case False
    then show ?thesis
      by (subst generateTimeouts_loop.simps) simp
  qed
qed

lemma generateTimeouts_map:
  "generateTimeouts n mn mx f = map (spec_delay mn mx f) [0..<n]"
  by (simp add: generateTimeouts_def generateTimeouts_loop_map)

lemma length_generateTimeouts [simp]:
  "length (generateTimeouts n mn mx f) = n"
  by (simp add: generateTimeouts_map)

lemma generateTimeouts_0 [simp]: "generateTimeouts 0 mn mx f = []"
  by (simp add: generateTimeouts_map)

lemma generateTimeouts_Suc:
  "generateTimeouts (Suc n) mn mx f =
     generateTimeouts n mn mx f @ [spec_delay mn mx f n]"
  by (simp add: generateTimeouts_map)

lemma spec_delay_le_bound: "le_bound (spec_delay mn mx f i) mx"
  by (cases mx) (simp_all add: spec_delay_def)

lemma spec_delay_nonneg:
  assumes "0 \<le> f" and "le_bound 0 mx"
  shows "0 \<le> spec_delay mn mx f i"
proof -
  have "0 \<le> max mn 1 * f ^ i"
    using assms(1) by simp
  then have "0 \<le> Math_round (max mn 1 * f ^ i)"
    by (simp add: Math_round_def)
  with assms(2) show ?thesis
    by (cases mx) (simp_all add: spec_delay_def)
qed

lemma Math_round_mono: "x \<le> y \<Longrightarrow> Math_round x \<le> Math_round y"
  by (simp add: Math_round_def floor_mono)

lemma Math_min_mono: "x \<le> y \<Longrightarrow> Math_min x mx \<le> Math_min y mx"
  by (cases mx) (auto simp: min_def)

lemma spec_delay_mono:
  assumes "1 \<le> f" and "i \<le> j"
  shows "spec_delay mn mx f i \<le> spec_delay mn mx f j"
proof -
  have "f ^ i \<le> f ^ j"
    by (rule power_increasing[OF assms(2) assms(1)])
  then have "max mn 1 * f ^ i \<le> max mn 1 * f ^ j"
    by (simp add: mult_left_mono)
  then show ?thesis
    unfolding spec_delay_def by (intro Math_min_mono Math_round_mono)
qed

lemma sorted_generateTimeouts:
  assumes "1 \<le> f"
  shows "sorted (generateTimeouts n mn mx f)"
  unfolding generateTimeouts_map sorted_map
  by (rule sorted_wrt_mono_rel[of _ "(\<le>)"]) (auto intro: spec_delay_mono[OF assms])

text \<open>
  Claim C9. The schedule generator is a function of its four arguments alone: for every
  number of retries and all numbers min, max and factor the loop of the source produces
  exactly the sequence that the specification describes, entry \<open>i\<close> being
  \<open>min(round(max(min, 1) * factor^i), max)\<close>; the sequence has length \<open>retries\<close>;
  \<open>generateTimeouts(5, 10, Infinity, 6)\<close> is \<open>[10, 60, 360, 2160, 12960]\<close>; and zero
  retries give the empty sequence.
\<close>

theorem generateTimeouts_refines_spec:
  "generateTimeouts n mn mx f = spec_schedule n mn mx f
   \<and> length (generateTimeouts n mn mx f) = n
   \<and> generateTimeouts 5 10 Infinity 6 = [10, 60, 360, 2160, 12960]
   \<and> generateTimeouts 0 mn mx f = []"
proof -
  have "generateTimeouts 5 10 Infinity 6 = [10, 60, 360, 2160, 12960]"
    by (simp add: generateTimeouts_def generateTimeouts_loop.simps Math_round_def)
  then show ?thesis
    by (simp add: generateTimeouts_map spec_schedule_def)
qed

text \<open>
  Claim C10, as stated, fails: with a growth factor below one the schedule decreases,
  and with a negative cap or a negative factor it has negative entries.
\<close>

theorem generateTimeouts_not_monotone_counterexample:
  "generateTimeouts 3 10 Infinity (1 / 2) = [10, 5, 3]
   \<and> \<not> sorted (generateTimeouts 3 10 Infinity (1 / 2))
   \<and> generateTimeouts 2 10 (Finite (- 1)) 2 = [- 1, - 1]
   \<and> generateTimeouts 2 10 Infinity (- 2) = [10, - 20]"
  by (simp add: generateTimeouts_def generateTimeouts_loop.simps Math_round_def)

text \<open>
  Claim C10, amended. For every input the schedule is a finite sequence of length
  \<open>retries\<close> whose entries are all capped at \<open>max\<close>; when the factor is not negative
  and the cap is not negative, every entry is non-negative; when the factor is at least
  one, the schedule is monotonically non-decreasing.
\<close>

theorem generateTimeouts_capped_nonneg_sorted:
  "length (generateTimeouts n mn mx f) = n
   \<and> list_all (\<lambda>t. le_bound t mx) (generateTimeouts n mn mx f)
   \<and> (0 \<le> f \<and> le_bound 0 mx \<longrightarrow>
        list_all (\<lambda>t. 0 \<le> t) (generateTimeouts n mn mx f))
   \<and> (1 \<le> f \<longrightarrow> sorted (generateTimeouts n mn mx f))"
proof (intro conjI impI)
  show "list_all (\<lambda>t. le_bound t mx) (generateTimeouts n mn mx f)"
    by (simp add: generateTimeouts_map list_all_iff spec_delay_le_bound)
  show "list_all (\<lambda>t. 0 \<le> t) (generateTimeouts n mn mx f)"
    if "0 \<le> f \<and> le_bound 0 mx"
    using that by (simp add: generateTimeouts_map list_all_iff spec_delay_nonneg)
  show "sorted (generateTimeouts n mn mx f)" if "1 \<le> f"
    using that by (rule sorted_generateTimeouts)
qed simp

theorem generateTimeouts_capped_nonneg_sorted_witness:
  "(0::real) \<le> 2 \<and> (1::real) \<le> 2 \<and> le_bound 0 (Finite 3000)
   \<and> generateTimeouts 3 1000 (Finite 3000) 2 = [1000, 2000, 3000]
   \<and> list_all (\<lambda>t. le_bound t (Finite 3000)) (generateTimeouts 3 1000 (Finite 3000) 2)
   \<and> list_all (\<lambda>t. 0 \<le> t) (generateTimeouts 3 1000 (Finite 3000) 2)
   \<and> sorted (generateTimeouts 3 1000 (Finite 3000) 2)"
proof -
  have "generateTimeouts 3 1000 (Finite 3000) 2 = [1000, 2000, 3000]"
    by (simp add: generateTimeouts_def generateTimeouts_loop.simps Math_round_def)
  with generateTimeouts_capped_nonneg_sorted [of 3 1000 "Finite 3000" 2] show ?thesis
    by simp
qed

section \<open>Properties of the attempt callback\<close>

lemma fn_Returns:
  "input n = Returns v \<Longrightarrow> fn input opts getTime n s = Settled (Resolved v) [] s"
  by (simp add: fn_def)

lemma fn_NonError:
  "input n = Throws (NonError str) \<Longrightarrow>
   fn input opts getTime n s =
     Settled (Rejected (Some (Failure (TypeError (non_error_message str))))) [] s"
  by (simp add: fn_def)

lemma fn_AbortError:
  "input n = Throws (Failure err) \<Longrightarrow> instanceof_AbortError err \<Longrightarrow>
   fn input opts getTime n s =
     Settled (Rejected (Some (Failure (originalError err)))) [] (stop s)"
  by (simp add: fn_def)

lemma fn_fatal_TypeError:
  "input n = Throws (Failure err) \<Longrightarrow> \<not> instanceof_AbortError err \<Longrightarrow>
   instanceof_TypeError err \<Longrightarrow> \<not> isNetworkError (message err) \<Longrightarrow>
   fn input opts getTime n s = Settled (Rejected (Some (Failure err))) [] (stop s)"
  by (simp add: fn_def)

lemma fn_observer_throws:
  "input n = Throws (Failure err) \<Longrightarrow> retryable err \<Longrightarrow>
   onFailedAttempt opts (attemptErr_of opts n err) = Some x \<Longrightarrow>
   fn input opts getTime n s = Settled (Rejected (Some x)) [attemptErr_of opts n err] s"
  by (auto simp: fn_def retryable_def attemptErr_of_def AttemptError_def)

lemma fn_expired:
  "input n = Throws (Failure err) \<Longrightarrow> retryable err \<Longrightarrow>
   onFailedAttempt opts (attemptErr_of opts n err) = None \<Longrightarrow> expired getTime n s \<Longrightarrow>
   fn input opts getTime n s =
     Settled (Rejected (map_option Failure
        (mainError (Error ''Maximum retry timeout reached'' # (errors s @ [err])))))
       [attemptErr_of opts n err]
       (s\<lparr>errors := Error ''Maximum retry timeout reached'' # (errors s @ [err])\<rparr>)"
  by (auto simp: fn_def retryable_def attemptErr_of_def AttemptError_def expired_def retry_inner_def)

lemma fn_schedule_empty:
  "input n = Throws (Failure err) \<Longrightarrow> retryable err \<Longrightarrow>
   onFailedAttempt opts (attemptErr_of opts n err) = None \<Longrightarrow> \<not> expired getTime n s \<Longrightarrow>
   timeouts s = [] \<Longrightarrow>
   fn input opts getTime n s =
     Settled (Rejected (map_option Failure (mainError (errors s @ [err]))))
       [attemptErr_of opts n err] (s\<lparr>errors := errors s @ [err]\<rparr>)"
  by (auto simp: fn_def retryable_def attemptErr_of_def AttemptError_def expired_def retry_inner_def)

lemma fn_scheduled:
  "input n = Throws (Failure err) \<Longrightarrow> retryable err \<Longrightarrow>
   onFailedAttempt opts (attemptErr_of opts n err) = None \<Longrightarrow> \<not> expired getTime n s \<Longrightarrow>
   timeouts s = t # ts \<Longrightarrow>
   fn input opts getTime n s =
     Scheduled (attemptErr_of opts n err)
       (s\<lparr>errors := errors s @ [err], timeouts := ts, timeoutId := Some t\<rparr>)"
  by (auto simp: fn_def retryable_def attemptErr_of_def AttemptError_def expired_def retry_inner_def)

lemma fn_Scheduled_D:
  assumes "fn input opts getTime n s = Scheduled a s'"
  shows "\<exists>err t. input n = Throws (Failure err) \<and> retryable err \<and> a = attemptErr_of opts n err
           \<and> onFailedAttempt opts a = None \<and> \<not> expired getTime n s
           \<and> timeouts s = t # timeouts s'
           \<and> s' = s\<lparr>errors := errors s @ [err], timeouts := timeouts s', timeoutId := Some t\<rparr>"
  using assms
  by (auto simp: fn_def retryable_def attemptErr_of_def AttemptError_def expired_def
      retry_inner_def Let_def
      split: outcome.splits thrown.splits if_splits option.splits list.splits)

lemma fn_Settled_D:
  assumes "fn input opts getTime n s = Settled out obs s'"
  shows "obs = [] \<and> (\<forall>err. input n = Throws (Failure err) \<longrightarrow> \<not> retryable err)
         \<or> (\<exists>err. input n = Throws (Failure err) \<and> retryable err
               \<and> obs = [attemptErr_of opts n err])"
  using assms
  by (auto simp: fn_def retryable_def attemptErr_of_def AttemptError_def expired_def
      retry_inner_def Let_def
      split: outcome.splits thrown.splits if_splits option.splits list.splits)

lemma fn_Scheduled_fields:
  assumes "fn input opts getTime n s = Scheduled a s'"
  shows "attempts s' = attempts s" and "operationStart s' = operationStart s"
    and "maxRetryTime s' = maxRetryTime s" and "length (timeouts s) = Suc (length (timeouts s'))"
    and "onFailedAttempt opts a = None"
    and "\<exists>err. input n = Throws (Failure err) \<and> retryable err \<and> a = attemptErr_of opts n err
            \<and> errors s' = errors s @ [err]"
    and "\<exists>t. timeouts s = t # timeouts s' \<and> timeoutId s' = Some t"
proof -
  from fn_Scheduled_D[OF assms] obtain err t where
    d: "input n = Throws (Failure err)" "retryable err" "a = attemptErr_of opts n err"
       "onFailedAttempt opts a = None" "timeouts s = t # timeouts s'"
       "s' = s\<lparr>errors := errors s @ [err], timeouts := timeouts s', timeoutId := Some t\<rparr>"
    by blast
  have f: "attempts s' = attempts s \<and> operationStart s' = operationStart s
           \<and> maxRetryTime s' = maxRetryTime s \<and> errors s' = errors s @ [err]
           \<and> timeoutId s' = Some t"
    by (subst d(6), simp)+
  show "attempts s' = attempts s" "operationStart s' = operationStart s"
    "maxRetryTime s' = maxRetryTime s" using f by simp_all
  show "length (timeouts s) = Suc (length (timeouts s'))" using d(5) by simp
  show "onFailedAttempt opts a = None" by (rule d(4))
  show "\<exists>err. input n = Throws (Failure err) \<and> retryable err \<and> a = attemptErr_of opts n err
            \<and> errors s' = errors s @ [err]"
    using d(1-3) f by blast
  show "\<exists>t. timeouts s = t # timeouts s' \<and> timeoutId s' = Some t"
    using d(5) f by blast
qed

lemma expired_cong:
  "operationStart s' = operationStart s \<Longrightarrow> maxRetryTime s' = maxRetryTime s \<Longrightarrow>
   expired getTime k s' = expired getTime k s"
  by (simp add: expired_def)

lemma attemptNumber_attemptErr_of [simp]: "attemptNumber (attemptErr_of opts n err) = n"
  by (simp add: attemptErr_of_def)

section \<open>Properties of the engine loop\<close>

lemma run_attempts_Settled:
  "fn input opts getTime (attempts s) s = Settled out obs s' \<Longrightarrow>
   run_attempts input opts getTime s =
     \<lparr>settled = out, calls = [attempts s], observed = obs, timers = [],
      accumulator = errors s'\<rparr>"
  by (subst run_attempts.simps) simp

lemma run_attempts_Scheduled:
  "fn input opts getTime (attempts s) s = Scheduled a s' \<Longrightarrow>
   run_attempts input opts getTime s =
     (let r = run_attempts input opts getTime (s'\<lparr>attempts := attempts s' + 1\<rparr>)
      in r\<lparr>calls := attempts s # calls r, observed := a # observed r,
            timers := (case timeoutId s' of None \<Rightarrow> [] | Some t \<Rightarrow> [t]) @ timers r\<rparr>)"
  by (subst run_attempts.simps) simp

lemma run_calls:
  "\<exists>k \<le> length (timeouts s).
     calls (run_attempts input opts getTime s) = [attempts s ..< attempts s + Suc k]"
proof (induction input opts getTime s rule: run_attempts.induct)
  case (1 input opts getTime s)
  show ?case
  proof (cases "fn input opts getTime (attempts s) s")
    case (Settled out obs s')
    then show ?thesis
      by (simp add: run_attempts_Settled)
  next
    case (Scheduled a s')
    from fn_Scheduled_D[OF this] obtain t where ts: "timeouts s = t # timeouts s'"
      and att: "attempts s' = attempts s"
      by (metis state.select_convs(4) state.surjective state.update_convs(1,2,5))
    from "1.IH"[OF Scheduled] obtain k where k: "k \<le> length (timeouts s')"
      and c: "calls (run_attempts input opts getTime (s'\<lparr>attempts := attempts s' + 1\<rparr>))
              = [attempts s' + 1 ..< attempts s' + 1 + Suc k]"
      by auto
    have "calls (run_attempts input opts getTime s) = [attempts s ..< attempts s + Suc (Suc k)]"
      using c att by (simp add: run_attempts_Scheduled[OF Scheduled] Let_def upt_conv_Cons)
    moreover have "Suc k \<le> length (timeouts s)"
      using k ts by simp
    ultimately show ?thesis by blast
  qed
qed

lemma run_observed_nth:
  "i < length (observed (run_attempts input opts getTime s)) \<Longrightarrow>
   \<exists>err. input (attempts s + i) = Throws (Failure err) \<and> retryable err
     \<and> observed (run_attempts input opts getTime s) ! i = attemptErr_of opts (attempts s + i) err"
proof (induction input opts getTime s arbitrary: i rule: run_attempts.induct)
  case (1 input opts getTime s)
  show ?case
  proof (cases "fn input opts getTime (attempts s) s")
    case (Settled out obs s')
    with "1.prems" fn_Settled_D[OF Settled] show ?thesis
      by (auto simp: run_attempts_Settled)
  next
    case (Scheduled a s')
    note f = fn_Scheduled_fields[OF Scheduled]
    let ?r = "run_attempts input opts getTime (s'\<lparr>attempts := attempts s' + 1\<rparr>)"
    have obs: "observed (run_attempts input opts getTime s) = a # observed ?r"
      by (simp add: run_attempts_Scheduled[OF Scheduled] Let_def)
    show ?thesis
    proof (cases i)
      case 0
      with f(6) obs show ?thesis by auto
    next
      case (Suc j)
      with "1.prems" obs have "j < length (observed ?r)" by simp
      from "1.IH"[OF Scheduled this] Suc obs f(1) show ?thesis by simp
    qed
  qed
qed

lemma run_length_observed:
  "length (observed (run_attempts input opts getTime s)) \<le> Suc (length (timeouts s))"
proof (induction input opts getTime s rule: run_attempts.induct)
  case (1 input opts getTime s)
  show ?case
  proof (cases "fn input opts getTime (attempts s) s")
    case (Settled out obs s')
    with fn_Settled_D[OF Settled] show ?thesis
      by (auto simp: run_attempts_Settled)
  next
    case (Scheduled a s')
    from "1.IH"[OF Scheduled] fn_Scheduled_fields(4)[OF Scheduled] show ?thesis
      by (simp add: run_attempts_Scheduled[OF Scheduled] Let_def)
  qed
qed

lemma run_observed_calls:
  "map attemptNumber (observed (run_attempts input opts getTime s)) =
     filter (retryable_at input) (calls (run_attempts input opts getTime s))"
proof (induction input opts getTime s rule: run_attempts.induct)
  case (1 input opts getTime s)
  show ?case
  proof (cases "fn input opts getTime (attempts s) s")
    case (Settled out obs s')
    with fn_Settled_D[OF Settled] show ?thesis
      by (auto simp: run_attempts_Settled retryable_at_def attemptErr_of_def
          split: outcome.splits thrown.splits)
  next
    case (Scheduled a s')
    from "1.IH"[OF Scheduled] fn_Scheduled_fields(6)[OF Scheduled] show ?thesis
      by (auto simp: run_attempts_Scheduled[OF Scheduled] Let_def retryable_at_def
          attemptErr_of_def)
  qed
qed

lemma initial_state_fields [simp]:
  "attempts (initial_state opts) = 1"
  "length (timeouts (initial_state opts)) = retries opts"
  "errors (initial_state opts) = []"
  by (simp_all add: initial_state_def Let_def)

lemma timeouts_initial_state:
  "timeouts (initial_state opts) =
     generateTimeouts (retries opts) (minTimeout opts) (maxTimeout opts) (factor opts)"
  by (simp add: initial_state_def Let_def)

lemma default_start_fields:
  "attempts default_start = 1" "timeouts default_start = [1000, 2000, 4000]"
  "errors default_start = []" "operationStart default_start = 0"
  "maxRetryTime default_start = Some 4000"
  by (simp_all add: default_start_def initial_state_def merge_options_def no_options_def
      generateTimeouts_def generateTimeouts_loop.simps Math_round_def last_entry_def Let_def)

lemma retry_valid:
  "\<not> gt_bound (minTimeout (merge_options options)) (maxTimeout (merge_options options)) \<Longrightarrow>
   retry input options getTime =
     ReturnsPromise (run_attempts input (merge_options options) getTime
         ((initial_state (merge_options options))\<lparr>operationStart := getTime 0\<rparr>))"
  by (simp add: retry_def new_Promise_def executor_def attempt_def Let_def)

lemma retry_run:
  "retry input options getTime = ReturnsPromise r \<Longrightarrow>
   \<not> gt_bound (minTimeout (merge_options options)) (maxTimeout (merge_options options)) \<Longrightarrow>
   r = run_attempts input (merge_options options) getTime
         ((initial_state (merge_options options))\<lparr>operationStart := getTime 0\<rparr>)"
  by (simp add: retry_def new_Promise_def executor_def attempt_def Let_def)

lemma retry_invalid:
  "retry input options getTime = ReturnsPromise r \<Longrightarrow>
   gt_bound (minTimeout (merge_options options)) (maxTimeout (merge_options options)) \<Longrightarrow>
   r = \<lparr>settled = Rejected (Some (Failure (Error ''minTimeout must be less than maxTimeout''))),
        calls = [], observed = [], timers = [], accumulator = []\<rparr>"
  by (auto simp add: retry_def new_Promise_def executor_def attempt_def Let_def)

lemmas engine_eval = retry_def new_Promise_def executor_def merge_options_def no_options_def
  initial_state_def attempt_def generateTimeouts_def generateTimeouts_loop.simps Math_round_def
  run_attempts.simps fn_def retry_inner_def last_entry_def mainError_def next_count_def
  objectPrototypeKeys_def AttemptError_def stop_def isNetworkError_def networkErrorMsgs_def
  always_fails_def Let_def

lemma fixture_run:
  "retry (always_fails ''fixture'') no_options (\<lambda>n. 0)
   = ReturnsPromise
      \<lparr>settled = Rejected (Some (Failure (Error ''fixture''))),
       calls = [1, 2, 3, 4],
       observed = [AttemptErrorObj ''fixture'' 1 3, AttemptErrorObj ''fixture'' 2 2,
                   AttemptErrorObj ''fixture'' 3 1, AttemptErrorObj ''fixture'' 4 0],
       timers = [1000, 2000, 4000],
       accumulator = [Error ''fixture'', Error ''fixture'', Error ''fixture'', Error ''fixture'']\<rparr>"
  by (simp add: engine_eval)

lemma expired_initial_clock_0:
  "\<not> expired (\<lambda>n. 0) k ((initial_state (merge_options no_options))\<lparr>operationStart := 0\<rparr>)"
  by (simp add: expired_def initial_state_def merge_options_def no_options_def
      generateTimeouts_def generateTimeouts_loop.simps Math_round_def last_entry_def Let_def)

section \<open>Failure classification\<close>

text \<open>
  Claim C2. In any attempt whose operation throws a structured failure: the known
  network error messages are exactly the four listed; an \<open>AbortError\<close> ends the
  session at once, the promise being rejected with the wrapped \<open>originalError\<close>,
  without a call of the observer; a \<open>TypeError\<close> whose message is not a known
  network error message ends it likewise, rejected with that failure as it is; every
  other failure, a \<open>TypeError\<close> with a known network error message included, is
  retryable: it is handed to the observer as an \<open>AttemptError\<close>, and when the
  observer completes, the time budget has not expired and the schedule is not empty, the
  next delay is taken from the schedule and a further attempt follows.
\<close>

theorem failure_classification:
  assumes "input (attempts s) = Throws (Failure err)"
  shows "(isNetworkError (message err) \<longleftrightarrow>
            message err \<in> {''Failed to fetch'', ''NetworkError when attempting to fetch resource.'',
              ''The Internet connection appears to be offline.'', ''Network request failed''})
    \<and> (instanceof_AbortError err \<longrightarrow>
          run_attempts input opts getTime s =
            \<lparr>settled = Rejected (Some (Failure (originalError err))), calls = [attempts s],
             observed = [], timers = [], accumulator = errors s\<rparr>)
    \<and> (\<not> instanceof_AbortError err \<and> instanceof_TypeError err
          \<and> \<not> isNetworkError (message err) \<longrightarrow>
          run_attempts input opts getTime s =
            \<lparr>settled = Rejected (Some (Failure err)), calls = [attempts s],
             observed = [], timers = [], accumulator = errors s\<rparr>)
    \<and> (\<not> instanceof_AbortError err
          \<and> (instanceof_TypeError err \<longrightarrow> isNetworkError (message err)) \<longrightarrow>
          hd (observed (run_attempts input opts getTime s)) = attemptErr_of opts (attempts s) err
          \<and> observed (run_attempts input opts getTime s) \<noteq> []
          \<and> (onFailedAttempt opts (attemptErr_of opts (attempts s) err) = None
               \<and> \<not> expired getTime (attempts s) s \<and> timeouts s \<noteq> [] \<longrightarrow>
               calls (run_attempts input opts getTime s) =
                 attempts s # calls (run_attempts input opts getTime
                    (s\<lparr>errors := errors s @ [err], timeouts := tl (timeouts s),
                       timeoutId := Some (hd (timeouts s)), attempts := attempts s + 1\<rparr>))
               \<and> timers (run_attempts input opts getTime s) =
                 hd (timeouts s) # timers (run_attempts input opts getTime
                    (s\<lparr>errors := errors s @ [err], timeouts := tl (timeouts s),
                       timeoutId := Some (hd (timeouts s)), attempts := attempts s + 1\<rparr>))))"
proof (intro conjI impI)
  show "isNetworkError (message err) \<longleftrightarrow>
            message err \<in> {''Failed to fetch'', ''NetworkError when attempting to fetch resource.'',
              ''The Internet connection appears to be offline.'', ''Network request failed''}"
    by (simp add: isNetworkError_def networkErrorMsgs_def)
next
  assume "instanceof_AbortError err"
  from run_attempts_Settled[OF fn_AbortError[where input = input and n = "attempts s", OF assms this]]
  show "run_attempts input opts getTime s =
            \<lparr>settled = Rejected (Some (Failure (originalError err))), calls = [attempts s],
             observed = [], timers = [], accumulator = errors s\<rparr>"
    by (simp add: stop_def)
next
  assume "\<not> instanceof_AbortError err \<and> instanceof_TypeError err \<and> \<not> isNetworkError (message err)"
  then have a: "\<not> instanceof_AbortError err" "instanceof_TypeError err"
    "\<not> isNetworkError (message err)" by simp_all
  from run_attempts_Settled[OF fn_fatal_TypeError[where input = input and n = "attempts s",
        OF assms a]]
  show "run_attempts input opts getTime s =
            \<lparr>settled = Rejected (Some (Failure err)), calls = [attempts s],
             observed = [], timers = [], accumulator = errors s\<rparr>"
    by (simp add: stop_def)
next
  assume "\<not> instanceof_AbortError err \<and> (instanceof_TypeError err \<longrightarrow> isNetworkError (message err))"
  then have r: "retryable err" by (auto simp: retryable_def)
  have first: "observed (run_attempts input opts getTime s) \<noteq> []
     \<and> hd (observed (run_attempts input opts getTime s)) = attemptErr_of opts (attempts s) err"
  proof (cases "fn input opts getTime (attempts s) s")
    case (Settled out obs s')
    with fn_Settled_D[OF Settled] assms r show ?thesis
      by (auto simp: run_attempts_Settled)
  next
    case (Scheduled a s')
    with fn_Scheduled_fields(6)[OF Scheduled] assms show ?thesis
      by (auto simp: run_attempts_Scheduled Let_def)
  qed
  from first show "hd (observed (run_attempts input opts getTime s)) = attemptErr_of opts (attempts s) err"
    by simp
  from first show "observed (run_attempts input opts getTime s) \<noteq> []" by simp
  let ?s2 = "s\<lparr>errors := errors s @ [err], timeouts := tl (timeouts s),
                       timeoutId := Some (hd (timeouts s)), attempts := attempts s + 1\<rparr>"
  assume "onFailedAttempt opts (attemptErr_of opts (attempts s) err) = None
               \<and> \<not> expired getTime (attempts s) s \<and> timeouts s \<noteq> []"
  then have o: "onFailedAttempt opts (attemptErr_of opts (attempts s) err) = None"
    and e: "\<not> expired getTime (attempts s) s" and t: "timeouts s = hd (timeouts s) # tl (timeouts s)"
    by simp_all
  have run: "run_attempts input opts getTime s =
     (let r = run_attempts input opts getTime ?s2
      in r\<lparr>calls := attempts s # calls r, observed := attemptErr_of opts (attempts s) err # observed r,
            timers := [hd (timeouts s)] @ timers r\<rparr>)"
    using run_attempts_Scheduled[OF fn_scheduled[where input = input and n = "attempts s",
          OF assms r o e t]]
    by simp
  show "calls (run_attempts input opts getTime s) =
     attempts s # calls (run_attempts input opts getTime ?s2)"
    by (subst run) (simp add: Let_def)
  show "timers (run_attempts input opts getTime s) =
     hd (timeouts s) # timers (run_attempts input opts getTime ?s2)"
    by (subst run) (simp add: Let_def)
qed

theorem failure_classification_witness:
  "run_attempts (throws_always (AbortError (Inr (Error ''fixture''))))
      (merge_options no_options) (\<lambda>n. 0) default_start =
     \<lparr>settled = Rejected (Some (Failure (Error ''fixture''))), calls = [1],
      observed = [], timers = [], accumulator = []\<rparr>
   \<and> run_attempts (throws_always (TypeError ''type-error-fixture''))
      (merge_options no_options) (\<lambda>n. 0) default_start =
     \<lparr>settled = Rejected (Some (Failure (TypeError ''type-error-fixture''))), calls = [1],
      observed = [], timers = [], accumulator = []\<rparr>
   \<and> hd (observed (run_attempts (throws_always (TypeError ''Failed to fetch''))
      (merge_options no_options) (\<lambda>n. 0) default_start)) = AttemptErrorObj ''Failed to fetch'' 1 3
   \<and> hd (timers (run_attempts (throws_always (TypeError ''Failed to fetch''))
      (merge_options no_options) (\<lambda>n. 0) default_start)) = 1000
   \<and> hd (observed (run_attempts (throws_always (OtherError ''RangeError'' ''boom''))
      (merge_options no_options) (\<lambda>n. 0) default_start)) = AttemptErrorObj ''boom'' 1 3"
proof -
  let ?o = "merge_options no_options"
  have a: "throws_always e (attempts default_start) = Throws (Failure e)" for e
    by (simp add: throws_always_def)
  have o: "onFailedAttempt ?o x = None" "retries ?o = 3" for x
    by (simp_all add: merge_options_def no_options_def)
  have e: "\<not> expired (\<lambda>n. 0) (attempts default_start) default_start"
    by (simp add: expired_def default_start_fields)
  from failure_classification[where input = "throws_always (AbortError (Inr (Error ''fixture'')))" and s = default_start
      and err = "AbortError (Inr (Error ''fixture''))" and opts = ?o and getTime = "\<lambda>n. 0", OF a]
  have 1: "run_attempts (throws_always (AbortError (Inr (Error ''fixture'')))) ?o (\<lambda>n. 0) default_start =
     \<lparr>settled = Rejected (Some (Failure (Error ''fixture''))), calls = [1],
      observed = [], timers = [], accumulator = []\<rparr>"
    by (simp add: default_start_fields)
  from failure_classification[where input = "throws_always (TypeError ''type-error-fixture'')" and s = default_start
      and err = "TypeError ''type-error-fixture''" and opts = ?o and getTime = "\<lambda>n. 0", OF a]
  have 2: "run_attempts (throws_always (TypeError ''type-error-fixture'')) ?o (\<lambda>n. 0) default_start =
     \<lparr>settled = Rejected (Some (Failure (TypeError ''type-error-fixture''))), calls = [1],
      observed = [], timers = [], accumulator = []\<rparr>"
    by (simp add: default_start_fields isNetworkError_def networkErrorMsgs_def)
  from failure_classification[where input = "throws_always (TypeError ''Failed to fetch'')" and s = default_start
      and err = "TypeError ''Failed to fetch''" and opts = ?o and getTime = "\<lambda>n. 0", OF a] o e
  have 3: "hd (observed (run_attempts (throws_always (TypeError ''Failed to fetch'')) ?o (\<lambda>n. 0)
        default_start)) = AttemptErrorObj ''Failed to fetch'' 1 3
     \<and> hd (timers (run_attempts (throws_always (TypeError ''Failed to fetch'')) ?o (\<lambda>n. 0)
        default_start)) = 1000"
    by (simp add: default_start_fields isNetworkError_def networkErrorMsgs_def attemptErr_of_def)
  from failure_classification[where input = "throws_always (OtherError ''RangeError'' ''boom'')" and s = default_start
      and err = "OtherError ''RangeError'' ''boom''" and opts = ?o and getTime = "\<lambda>n. 0", OF a] o
  have 4: "hd (observed (run_attempts (throws_always (OtherError ''RangeError'' ''boom'')) ?o (\<lambda>n. 0)
        default_start)) = AttemptErrorObj ''boom'' 1 3"
    by (simp add: default_start_fields attemptErr_of_def)
  from 1 2 3 4 show ?thesis by simp
qed

section \<open>Properties of the representative failure\<close>

text \<open>
  Claim C3 fails on accumulators that hold a message naming a property inherited from
  \<open>Object.prototype\<close>: such a message is not counted. A non-empty accumulator may
  then have no representative at all, and a failure that occurs more often is passed
  over.
\<close>

theorem mainError_inherited_property_name:
  "mainError [Error ''constructor''] = None
   \<and> mainError [Error ''a'', Error ''toString'', Error ''toString''] = Some (Error ''a'')"
  by (simp add: mainError_def next_count_def objectPrototypeKeys_def)

lemma mainError_empty: "mainError [] = None"
  by (simp add: mainError_def)

lemma running_count_append:
  "j < length pre \<Longrightarrow> running_count (pre @ ys) j = running_count pre j"
  by (simp add: running_count_def nth_append)

lemma running_count_snoc:
  "running_count (pre @ [x]) (length pre) = Suc (count_list (map message pre) (message x))"
  by (simp add: running_count_def)

lemma running_count_pos:
  assumes "j < length errs"
  shows "0 < running_count errs j"
proof -
  have "take (Suc j) errs = take j errs @ [errs ! j]"
    using assms by (simp add: take_Suc_conv_app_nth)
  then show ?thesis by (simp add: running_count_def)
qed

lemma is_representative_unique:
  assumes "is_representative errs k" and "is_representative errs k'"
  shows "k = k'"
proof (rule ccontr)
  assume "k \<noteq> k'"
  then consider "k < k'" | "k' < k" by linarith
  then show False
  proof cases
    case 1
    with assms have "running_count errs k' < running_count errs k"
      "running_count errs k \<le> running_count errs k'"
      by (auto simp: is_representative_def)
    then show False by simp
  next
    case 2
    with assms have "running_count errs k < running_count errs k'"
      "running_count errs k' \<le> running_count errs k"
      by (auto simp: is_representative_def)
    then show False by simp
  qed
qed

lemma tracked_step:
  assumes "tracked pre mainErr mc"
    and c: "c = Suc (count_list (map message pre) (message x))"
  shows "tracked (pre @ [x]) (if c \<ge> mc then Some x else mainErr) (if c \<ge> mc then c else mc)"
proof (cases "c \<ge> mc")
  case True
  have le: "running_count pre j \<le> mc" if "j < length pre" for j
  proof -
    from that have "pre \<noteq> []" by auto
    with assms(1) obtain k where "is_representative pre k" "mc = running_count pre k"
      by (auto simp: tracked_def)
    with that show ?thesis by (simp add: is_representative_def)
  qed
  have "is_representative (pre @ [x]) (length pre)"
    unfolding is_representative_def
  proof (intro conjI allI impI)
    show "length pre < length (pre @ [x])" by simp
  next
    fix j assume "j < length (pre @ [x])"
    then consider "j < length pre" | "j = length pre" by fastforce
    then show "running_count (pre @ [x]) j \<le> running_count (pre @ [x]) (length pre)"
    proof cases
      case 1
      with le[OF 1] True c show ?thesis
        by (simp add: running_count_append running_count_snoc)
    next
      case 2
      then show ?thesis by simp
    qed
  next
    fix j assume "j < length (pre @ [x])" "length pre < j"
    then show "running_count (pre @ [x]) j < running_count (pre @ [x]) (length pre)" by simp
  qed
  with True c show ?thesis
    by (auto simp: tracked_def running_count_snoc)
next
  case False
  then have "mc \<noteq> 0" by simp
  with assms(1) have ne: "pre \<noteq> []" by (auto simp: tracked_def)
  with assms(1) obtain k where k: "is_representative pre k" "mainErr = Some (pre ! k)"
    "mc = running_count pre k"
    by (auto simp: tracked_def)
  then have klt: "k < length pre" by (simp add: is_representative_def)
  have "is_representative (pre @ [x]) k"
    unfolding is_representative_def
  proof (intro conjI allI impI)
    show "k < length (pre @ [x])" using klt by simp
  next
    fix j assume "j < length (pre @ [x])"
    then consider "j < length pre" | "j = length pre" by fastforce
    then show "running_count (pre @ [x]) j \<le> running_count (pre @ [x]) k"
    proof cases
      case 1
      with k(1) klt show ?thesis
        by (simp add: running_count_append is_representative_def)
    next
      case 2
      with False c k(3) klt show ?thesis
        by (simp add: running_count_append running_count_snoc)
    qed
  next
    fix j assume "j < length (pre @ [x])" "k < j"
    then consider "j < length pre" | "j = length pre" by fastforce
    then show "running_count (pre @ [x]) j < running_count (pre @ [x]) k"
    proof cases
      case 1
      with k(1) klt \<open>k < j\<close> show ?thesis
        by (simp add: running_count_append is_representative_def)
    next
      case 2
      with False c k(3) klt show ?thesis
        by (simp add: running_count_append running_count_snoc)
    qed
  qed
  with False k(2,3) klt show ?thesis
    by (auto simp: tracked_def running_count_append nth_append)
qed

lemma mainError_loop_tracked:
  assumes "\<forall>e\<in>set rest. message e \<notin> set objectPrototypeKeys"
    and "\<forall>msg. (case counts msg of None \<Rightarrow> 0 | Some c \<Rightarrow> c) = count_list (map message pre) msg"
    and "tracked pre mainErr mc"
  shows "\<exists>mc'. tracked (pre @ rest) (mainError_loop rest counts mainErr mc) mc'"
  using assms
proof (induction rest arbitrary: pre counts mainErr mc)
  case Nil
  then show ?case by auto
next
  case (Cons x xs)
  let ?msg = "message x"
  let ?c = "Suc (count_list (map message pre) ?msg)"
  have nc: "next_count counts ?msg = Some ?c"
    using Cons.prems(1,2) by (simp add: next_count_def)
  have step: "mainError_loop (x # xs) counts mainErr mc =
      mainError_loop xs (counts(?msg \<mapsto> ?c)) (if ?c \<ge> mc then Some x else mainErr)
        (if ?c \<ge> mc then ?c else mc)"
    using nc by (simp add: Let_def)
  have "\<exists>mc'. tracked ((pre @ [x]) @ xs)
      (mainError_loop xs (counts(?msg \<mapsto> ?c)) (if ?c \<ge> mc then Some x else mainErr)
        (if ?c \<ge> mc then ?c else mc)) mc'"
  proof (rule Cons.IH)
    show "\<forall>e\<in>set xs. message e \<notin> set objectPrototypeKeys"
      using Cons.prems(1) by simp
    show "\<forall>msg. (case (counts(?msg \<mapsto> ?c)) msg of None \<Rightarrow> 0 | Some c \<Rightarrow> c)
        = count_list (map message (pre @ [x])) msg"
      using Cons.prems(2) by simp
    show "tracked (pre @ [x]) (if ?c \<ge> mc then Some x else mainErr) (if ?c \<ge> mc then ?c else mc)"
      by (rule tracked_step[OF Cons.prems(3) refl])
  qed
  with step show ?case by simp
qed

text \<open>
  For an accumulator whose messages are all counted, \<open>mainError\<close> returns the most
  recent entry whose running count is the highest (ties go to the later entry); there is
  exactly one such entry.
\<close>

lemma mainError_characterisation:
  assumes "errs \<noteq> []" and "\<forall>e\<in>set errs. message e \<notin> set objectPrototypeKeys"
  shows "\<exists>k. is_representative errs k \<and> mainError errs = Some (errs ! k)"
proof -
  have "tracked [] None 0" by (simp add: tracked_def)
  from mainError_loop_tracked[OF assms(2) _ this, of Map.empty]
  obtain mc' where "tracked errs (mainError_loop errs Map.empty None 0) mc'"
    by auto
  with assms(1) show ?thesis
    by (auto simp: tracked_def mainError_def)
qed

lemma marker_never_representative:
  assumes "es \<noteq> []" and "is_representative (marker # es) k"
  shows "0 < k"
proof (rule ccontr)
  assume "\<not> 0 < k"
  then have k: "k = 0" by simp
  from assms(1) have 1: "1 < length (marker # es)" by (cases es) simp_all
  with assms(2) k have "running_count (marker # es) 1 < running_count (marker # es) 0"
    by (simp add: is_representative_def)
  moreover have "running_count (marker # es) 0 = 1"
    by (simp add: running_count_def)
  moreover have "0 < running_count (marker # es) 1"
    using 1 by (rule running_count_pos)
  ultimately show False by simp
qed

lemma marker_not_inherited:
  "''Maximum retry timeout reached'' \<notin> set objectPrototypeKeys"
  by (simp add: objectPrototypeKeys_def)

text \<open>
  When the time budget has expired, the accumulator is the marker followed by at least
  one failure of the operation. If the messages are all counted, the representative is
  one of the failures of the operation, never the marker in front.
\<close>

lemma expired_budget_surfaces_operation_failure:
  assumes "es \<noteq> []"
    and "\<forall>e\<in>set es. message e \<notin> set objectPrototypeKeys"
  shows "\<exists>k<length es. mainError (Error ''Maximum retry timeout reached'' # es) = Some (es ! k)"
proof -
  let ?errs = "Error ''Maximum retry timeout reached'' # es"
  have "\<forall>e\<in>set ?errs. message e \<notin> set objectPrototypeKeys"
    using assms(2) by (simp add: objectPrototypeKeys_def)
  from mainError_characterisation[OF _ this] obtain k where
    k: "is_representative ?errs k" "mainError ?errs = Some (?errs ! k)" by auto
  from marker_never_representative[OF assms(1) k(1)] have "0 < k" .
  moreover from k(1) have "k < length ?errs" by (simp add: is_representative_def)
  ultimately have "k - 1 < length es" "?errs ! k = es ! (k - 1)"
    by (simp_all add: nth_Cons')
  with k(2) show ?thesis by auto
qed

lemma mainError_loop_same:
  "es \<noteq> [] \<Longrightarrow> \<forall>e\<in>set es. message e = m \<Longrightarrow> m \<notin> set objectPrototypeKeys \<Longrightarrow>
   mc \<le> (case counts m of None \<Rightarrow> 0 | Some c \<Rightarrow> c) + 1 \<Longrightarrow>
   mainError_loop es counts mainErr mc = Some (last es)"
proof (induction es arbitrary: counts mainErr mc)
  case Nil
  then show ?case by simp
next
  case (Cons e es)
  let ?c = "(case counts m of None \<Rightarrow> 0 | Some c \<Rightarrow> c) + 1"
  have nc: "next_count counts (message e) = Some ?c"
    using Cons.prems by (simp add: next_count_def)
  show ?case
  proof (cases "es = []")
    case True
    with nc Cons.prems show ?thesis by simp
  next
    case False
    have "mainError_loop es (counts(m \<mapsto> ?c)) (Some e) ?c = Some (last es)"
      using Cons.prems False by (intro Cons.IH) simp_all
    with nc Cons.prems False show ?thesis by simp
  qed
qed

lemma mainError_same:
  "es \<noteq> [] \<Longrightarrow> \<forall>e\<in>set es. message e = m \<Longrightarrow> m \<notin> set objectPrototypeKeys \<Longrightarrow>
   mainError es = Some (last es)"
  using mainError_loop_same[of es m 0 Map.empty None] by (simp add: mainError_def)

lemma mainError_marker_same:
  assumes "es \<noteq> []" and "\<forall>e\<in>set es. message e = m" and "m \<notin> set objectPrototypeKeys"
  shows "mainError (Error ''Maximum retry timeout reached'' # es) = Some (last es)"
proof (cases "m = ''Maximum retry timeout reached''")
  case True
  with assms mainError_same[of "Error ''Maximum retry timeout reached'' # es" m]
  show ?thesis by simp
next
  case False
  have "mainError_loop es [''Maximum retry timeout reached'' \<mapsto> 1]
          (Some (Error ''Maximum retry timeout reached'')) 1 = Some (last es)"
    using assms False by (intro mainError_loop_same[where m = m]) simp_all
  then show ?thesis
    using marker_not_inherited by (simp add: mainError_def next_count_def)
qed

section \<open>The failure observer\<close>

text \<open>
  Claim C7. The observer is called for exactly the attempts that end in a retryable
  failure, and the value it receives in the call number \<open>i + 1\<close> has the name
  \<open>AttemptError\<close>, the message of the failure of that attempt, the attempt number
  \<open>i + 1\<close>, and \<open>retriesLeft = retries - (attemptNumber - 1)\<close>, which is not
  negative and is smaller in the next call.
\<close>

theorem observer_receives_AttemptError:
  assumes "retry input options getTime = ReturnsPromise r"
    and "i < length (observed r)"
  shows "map attemptNumber (observed r) = filter (retryable_at input) (calls r)
    \<and> (\<exists>err. input (Suc i) = Throws (Failure err) \<and> retryable err
          \<and> name (observed r ! i) = ''AttemptError''
          \<and> message (observed r ! i) = message err
          \<and> attemptNumber (observed r ! i) = Suc i
          \<and> retriesLeft (observed r ! i)
               = int (retries (merge_options options)) - (int (attemptNumber (observed r ! i)) - 1)
          \<and> 0 \<le> retriesLeft (observed r ! i)
          \<and> (Suc i < length (observed r) \<longrightarrow>
                retriesLeft (observed r ! Suc i) < retriesLeft (observed r ! i)))"
proof -
  let ?opts = "merge_options options"
  have valid: "\<not> gt_bound (minTimeout ?opts) (maxTimeout ?opts)"
    using retry_invalid[OF assms(1)] assms(2) by auto
  let ?s = "(initial_state ?opts)\<lparr>operationStart := getTime 0\<rparr>"
  have r: "r = run_attempts input ?opts getTime ?s"
    by (rule retry_run[OF assms(1) valid])
  from run_observed_nth[of i input ?opts getTime ?s] assms(2) r
  obtain err where e: "input (Suc i) = Throws (Failure err)" "retryable err"
    "observed r ! i = attemptErr_of ?opts (Suc i) err"
    by auto
  have len: "length (observed r) \<le> Suc (retries ?opts)"
    using run_length_observed[of input ?opts getTime ?s] r by simp
  have decr: "retriesLeft (observed r ! Suc i) < retriesLeft (observed r ! i)"
    if "Suc i < length (observed r)"
  proof -
    from run_observed_nth[of "Suc i" input ?opts getTime ?s] that r
    obtain err' where "observed r ! Suc i = attemptErr_of ?opts (Suc (Suc i)) err'"
      by auto
    with e(3) show ?thesis by (simp add: attemptErr_of_def)
  qed
  have "map attemptNumber (observed r) = filter (retryable_at input) (calls r)"
    unfolding r by (rule run_observed_calls)
  moreover have "0 \<le> retriesLeft (observed r ! i)"
    using e(3) len assms(2) by (simp add: attemptErr_of_def)
  ultimately show ?thesis
    using e decr by (auto simp: attemptErr_of_def)
qed

theorem observer_receives_AttemptError_witness:
  "(\<exists>r. retry (always_fails ''fixture'') no_options (\<lambda>n. 0) = ReturnsPromise r
      \<and> 1 < length (observed r)
      \<and> map attemptNumber (observed r) = filter (retryable_at (always_fails ''fixture'')) (calls r)
      \<and> name (observed r ! 1) = ''AttemptError''
      \<and> message (observed r ! 1) = ''fixture''
      \<and> attemptNumber (observed r ! 1) = 2
      \<and> retriesLeft (observed r ! 1) = 2
      \<and> retriesLeft (observed r ! 2) < retriesLeft (observed r ! 1))"
proof -
  let ?r = "\<lparr>settled = Rejected (Some (Failure (Error ''fixture''))),
       calls = [1, 2, 3, 4],
       observed = [AttemptErrorObj ''fixture'' 1 3, AttemptErrorObj ''fixture'' 2 2,
                   AttemptErrorObj ''fixture'' 3 1, AttemptErrorObj ''fixture'' 4 0],
       timers = [1000, 2000, 4000],
       accumulator = [Error ''fixture'', Error ''fixture'', Error ''fixture'', Error ''fixture'']\<rparr>
       :: unit run"
  have len: "1 < length (observed ?r)" by simp
  from observer_receives_AttemptError[OF fixture_run len]
  have "map attemptNumber (observed ?r) = filter (retryable_at (always_fails ''fixture'')) (calls ?r)
      \<and> name (observed ?r ! 1) = ''AttemptError''
      \<and> message (observed ?r ! 1) = ''fixture''
      \<and> attemptNumber (observed ?r ! 1) = 2
      \<and> retriesLeft (observed ?r ! 1) = 2
      \<and> retriesLeft (observed ?r ! 2) < retriesLeft (observed ?r ! 1)"
    by (simp add: always_fails_def merge_options_def no_options_def)
  with fixture_run len show ?thesis by blast
qed

lemma run_observer_throws:
  assumes "a \<in> set (observed (run_attempts input opts getTime s))"
    and "onFailedAttempt opts a = Some x"
  shows "settled (run_attempts input opts getTime s) = Rejected (Some x)
    \<and> last (observed (run_attempts input opts getTime s)) = a
    \<and> last (calls (run_attempts input opts getTime s)) = attemptNumber a
    \<and> attempts s \<le> attemptNumber a
    \<and> (\<exists>es. accumulator (run_attempts input opts getTime s) = errors s @ es
          \<and> map (\<lambda>e. Throws (Failure e)) es = map input [attempts s ..< attemptNumber a])"
  using assms
proof (induction input opts getTime s rule: run_attempts.induct)
  case (1 input opts getTime s)
  show ?case
  proof (cases "fn input opts getTime (attempts s) s")
    case (Settled out obs s')
    have run: "run_attempts input opts getTime s =
      \<lparr>settled = out, calls = [attempts s], observed = obs, timers = [],
       accumulator = errors s'\<rparr>"
      by (rule run_attempts_Settled[OF Settled])
    with "1.prems"(1) have "a \<in> set obs" by simp
    with fn_Settled_D[OF Settled] obtain err where
      e: "input (attempts s) = Throws (Failure err)" "retryable err"
         "obs = [attemptErr_of opts (attempts s) err]" "a = attemptErr_of opts (attempts s) err"
      by auto
    have "onFailedAttempt opts (attemptErr_of opts (attempts s) err) = Some x"
      using "1.prems"(2) e(4) by simp
    from fn_observer_throws[where input = input and n = "attempts s", OF e(1) e(2) this,
        of getTime s] Settled
    have "out = Rejected (Some x)" "s' = s" by simp_all
    with run e show ?thesis by simp
  next
    case (Scheduled a' s')
    note f = fn_Scheduled_fields[OF Scheduled]
    let ?r = "run_attempts input opts getTime (s'\<lparr>attempts := attempts s' + 1\<rparr>)"
    have run: "run_attempts input opts getTime s =
      ?r\<lparr>calls := attempts s # calls ?r, observed := a' # observed ?r,
          timers := (case timeoutId s' of None \<Rightarrow> [] | Some t \<Rightarrow> [t]) @ timers ?r\<rparr>"
      by (simp add: run_attempts_Scheduled[OF Scheduled] Let_def)
    from f(5) "1.prems"(2) have "a \<noteq> a'" by auto
    with "1.prems"(1) run have mem: "a \<in> set (observed ?r)" by simp
    from "1.IH"[OF Scheduled mem "1.prems"(2)] obtain es where
      ih: "settled ?r = Rejected (Some x)" "last (observed ?r) = a"
          "last (calls ?r) = attemptNumber a" "attempts s' + 1 \<le> attemptNumber a"
          "accumulator ?r = errors s' @ es"
          "map (\<lambda>e. Throws (Failure e)) es = map input [attempts s' + 1 ..< attemptNumber a]"
      by auto
    from f(6) obtain err where e: "input (attempts s) = Throws (Failure err)"
      "errors s' = errors s @ [err]" by blast
    from run_calls[of s' input opts getTime] have ne: "calls ?r \<noteq> []"
      by (metis run_calls Zero_not_Suc add_Suc_right length_upt diff_add_inverse list.size(3))
    have lt: "attempts s < attemptNumber a" using ih(4) f(1) by simp
    then have upt: "[attempts s ..< attemptNumber a] = attempts s # [attempts s' + 1 ..< attemptNumber a]"
      using f(1) by (simp add: upt_conv_Cons)
    have "accumulator (run_attempts input opts getTime s) = errors s @ (err # es)"
      using run ih(5) e(2) by simp
    moreover have "map (\<lambda>e. Throws (Failure e)) (err # es) = map input [attempts s ..< attemptNumber a]"
      using upt ih(6) e(1) by simp
    ultimately have "\<exists>es. accumulator (run_attempts input opts getTime s) = errors s @ es
          \<and> map (\<lambda>e. Throws (Failure e)) es = map input [attempts s ..< attemptNumber a]"
      by blast
    moreover have "last (observed (run_attempts input opts getTime s)) = a"
      using run ih(2) mem by auto
    moreover have "last (calls (run_attempts input opts getTime s)) = attemptNumber a"
      using run ih(3) ne by simp
    ultimately show ?thesis using run ih(1) lt by simp
  qed
qed

text \<open>
  Claim C8. When the observer throws for the failure of some attempt, the engine
  rejects with exactly what the observer threw; that call of the observer is the last
  one and the attempt it belongs to is the last call of the operation; and the error
  accumulator holds just the failures of the attempts before it, so neither the
  observer's failure nor the failure of that attempt was added to it, and the rejection
  does not come from \<open>mainError\<close>.
\<close>

theorem observer_failure_rejects:
  assumes "retry input options getTime = ReturnsPromise r"
    and "a \<in> set (observed r)"
    and "onFailedAttempt (merge_options options) a = Some x"
  shows "settled r = Rejected (Some x)
    \<and> last (observed r) = a
    \<and> calls r = [1 ..< Suc (attemptNumber a)]
    \<and> map (\<lambda>e. Throws (Failure e)) (accumulator r) = map input [1 ..< attemptNumber a]"
proof -
  let ?opts = "merge_options options"
  let ?s = "(initial_state ?opts)\<lparr>operationStart := getTime 0\<rparr>"
  have valid: "\<not> gt_bound (minTimeout ?opts) (maxTimeout ?opts)"
    using retry_invalid[OF assms(1)] assms(2) by auto
  have r: "r = run_attempts input ?opts getTime ?s"
    by (rule retry_run[OF assms(1) valid])
  from run_observer_throws[of a input ?opts getTime ?s x] assms(2,3) r
  have main: "settled r = Rejected (Some x)" "last (observed r) = a"
    "last (calls r) = attemptNumber a"
    "map (\<lambda>e. Throws (Failure e)) (accumulator r) = map input [1 ..< attemptNumber a]"
    by auto
  from run_calls[of ?s input ?opts getTime] r obtain k where
    k: "calls r = [1 ..< 1 + Suc k]" by auto
  then have "last (calls r) = Suc k" by simp
  with main(3) k have "calls r = [1 ..< Suc (attemptNumber a)]" by simp
  with main show ?thesis by simp
qed

lemma throwing_observer_run:
  "retry (always_fails ''fixture'')
     (no_options\<lparr>onFailedAttempt_opt := Some throwing_observer\<rparr>) (\<lambda>n. 0)
   = ReturnsPromise
      \<lparr>settled = Rejected (Some (Failure (Error ''thrown from onFailedAttempt''))),
       calls = [1, 2],
       observed = [AttemptErrorObj ''fixture'' 1 3, AttemptErrorObj ''fixture'' 2 2],
       timers = [1000],
       accumulator = [Error ''fixture'']\<rparr>"
  by (simp add: engine_eval throwing_observer_def)

theorem observer_failure_rejects_witness:
  "\<exists>r. retry (always_fails ''fixture'')
          (no_options\<lparr>onFailedAttempt_opt := Some throwing_observer\<rparr>) (\<lambda>n. 0)
        = ReturnsPromise r
      \<and> AttemptErrorObj ''fixture'' 2 2 \<in> set (observed r)
      \<and> onFailedAttempt (merge_options (no_options\<lparr>onFailedAttempt_opt := Some throwing_observer\<rparr>))
           (AttemptErrorObj ''fixture'' 2 2) = Some (Failure (Error ''thrown from onFailedAttempt''))
      \<and> settled r = Rejected (Some (Failure (Error ''thrown from onFailedAttempt'')))
      \<and> calls r = [1, 2]
      \<and> accumulator r = [Error ''fixture'']"
proof -
  let ?o = "no_options\<lparr>onFailedAttempt_opt := Some throwing_observer\<rparr>"
  let ?r = "\<lparr>settled = Rejected (Some (Failure (Error ''thrown from onFailedAttempt''))),
       calls = [1, 2],
       observed = [AttemptErrorObj ''fixture'' 1 3, AttemptErrorObj ''fixture'' 2 2],
       timers = [1000],
       accumulator = [Error ''fixture'']\<rparr> :: unit run"
  have mem: "AttemptErrorObj ''fixture'' 2 2 \<in> set (observed ?r)" by simp
  have thr: "onFailedAttempt (merge_options ?o) (AttemptErrorObj ''fixture'' 2 2)
      = Some (Failure (Error ''thrown from onFailedAttempt''))"
    by (simp add: merge_options_def no_options_def throwing_observer_def)
  from observer_failure_rejects[OF throwing_observer_run mem thr]
  have "settled ?r = Rejected (Some (Failure (Error ''thrown from onFailedAttempt'')))
      \<and> calls ?r = [1, 2] \<and> accumulator ?r = [Error ''fixture'']"
    by simp
  with throwing_observer_run mem thr show ?thesis by blast
qed

section \<open>Exhaustion\<close>

lemma run_exhausts:
  assumes "\<And>k. attempts s \<le> k \<Longrightarrow> k \<le> attempts s + length (timeouts s) \<Longrightarrow>
             input k = Throws (Failure (E k)) \<and> retryable (E k)
             \<and> onFailedAttempt opts (attemptErr_of opts k (E k)) = None"
    and "\<And>k. attempts s \<le> k \<Longrightarrow> k < attempts s + length (timeouts s) \<Longrightarrow>
             \<not> expired getTime k s"
  shows "run_attempts input opts getTime s =
     (let ks = [attempts s ..< attempts s + length (timeouts s) + 1];
          acc = (if expired getTime (attempts s + length (timeouts s)) s
                 then [Error ''Maximum retry timeout reached''] else [])
                @ errors s @ map E ks
      in \<lparr>settled = Rejected (map_option Failure (mainError acc)),
          calls = ks,
          observed = map (\<lambda>k. attemptErr_of opts k (E k)) ks,
          timers = timeouts s,
          accumulator = acc\<rparr>)"
  using assms
proof (induction "timeouts s" arbitrary: s)
  case Nil
  from Nil.prems(1)[of "attempts s"] have
    f: "input (attempts s) = Throws (Failure (E (attempts s)))" "retryable (E (attempts s))"
       "onFailedAttempt opts (attemptErr_of opts (attempts s) (E (attempts s))) = None"
    by simp_all
  show ?case
  proof (cases "expired getTime (attempts s) s")
    case True
    from run_attempts_Settled[OF fn_expired[where input = input and n = "attempts s"
          and err = "E (attempts s)", OF f True]] True Nil.hyps[symmetric]
    show ?thesis by (simp add: Let_def)
  next
    case False
    from run_attempts_Settled[OF fn_schedule_empty[where input = input and n = "attempts s"
          and err = "E (attempts s)", OF f False Nil.hyps[symmetric]]]
      False Nil.hyps[symmetric]
    show ?thesis by (simp add: Let_def)
  qed
next
  case (Cons t ts)
  from Cons.prems(1)[of "attempts s"] have
    f: "input (attempts s) = Throws (Failure (E (attempts s)))" "retryable (E (attempts s))"
       "onFailedAttempt opts (attemptErr_of opts (attempts s) (E (attempts s))) = None"
    by simp_all
  have ne: "\<not> expired getTime (attempts s) s"
    using Cons.prems(2)[of "attempts s"] Cons.hyps(2)[symmetric] by simp
  let ?s' = "s\<lparr>errors := errors s @ [E (attempts s)], timeouts := ts, timeoutId := Some t\<rparr>"
  let ?s2 = "?s'\<lparr>attempts := attempts ?s' + 1\<rparr>"
  have sch: "fn input opts getTime (attempts s) s = Scheduled (attemptErr_of opts (attempts s) (E (attempts s))) ?s'"
    by (rule fn_scheduled[where input = input and n = "attempts s"
          and err = "E (attempts s)", OF f ne Cons.hyps(2)[symmetric]])
  have len: "length (timeouts s) = Suc (length ts)"
    using Cons.hyps(2)[symmetric] by simp
  have ex: "expired getTime k ?s2 = expired getTime k s" for k
    by (rule expired_cong) simp_all
  have ih: "run_attempts input opts getTime ?s2 =
     (let ks = [attempts ?s2 ..< attempts ?s2 + length (timeouts ?s2) + 1];
          acc = (if expired getTime (attempts ?s2 + length (timeouts ?s2)) ?s2
                 then [Error ''Maximum retry timeout reached''] else [])
                @ errors ?s2 @ map E ks
      in \<lparr>settled = Rejected (map_option Failure (mainError acc)),
          calls = ks,
          observed = map (\<lambda>k. attemptErr_of opts k (E k)) ks,
          timers = timeouts ?s2,
          accumulator = acc\<rparr>)"
  proof (rule Cons.hyps(1))
    show "ts = timeouts ?s2" by simp
  next
    fix k assume "attempts ?s2 \<le> k" "k \<le> attempts ?s2 + length (timeouts ?s2)"
    then show "input k = Throws (Failure (E k)) \<and> retryable (E k)
             \<and> onFailedAttempt opts (attemptErr_of opts k (E k)) = None"
      using Cons.prems(1)[of k] len by simp
  next
    fix k assume "attempts ?s2 \<le> k" "k < attempts ?s2 + length (timeouts ?s2)"
    then show "\<not> expired getTime k ?s2"
      using Cons.prems(2)[of k] len ex by simp
  qed
  have upt: "[attempts s ..< attempts s + length (timeouts s) + 1]
      = attempts s # [attempts s + 1 ..< attempts s + 1 + length ts + 1]"
  proof -
    have "[attempts s ..< attempts s + length (timeouts s) + 1]
        = attempts s # [Suc (attempts s) ..< attempts s + length (timeouts s) + 1]"
      by (rule upt_conv_Cons) simp
    moreover have "attempts s + length (timeouts s) + 1 = attempts s + 1 + length ts + 1"
      using len by simp
    moreover have "Suc (attempts s) = attempts s + 1" by simp
    ultimately show ?thesis by (simp only:)
  qed
  show ?case
    unfolding run_attempts_Scheduled[OF sch] ih upt
    using len ex Cons.hyps(2)[symmetric] by (simp add: Let_def)
qed

text \<open>
  Claim C1, amended. With \<open>retries = 3\<close>, an operation whose first four attempts all
  fail with retryable failures of one message, an observer that does not throw, and a
  time budget that has not expired when the first three failures are handled, the
  engine calls the operation exactly four times and rejects with the failure of the
  fourth attempt, whose message is the repeated one. The observer is called four times,
  once for every failure including the last, with \<open>attemptNumber\<close> 1, 2, 3, 4 and
  \<open>retriesLeft\<close> 3, 2, 1, 0. (The message is one that \<open>mainError\<close> counts.)
\<close>

theorem exhaustion_after_four_attempts:
  assumes "retries (merge_options options) = 3"
    and "\<not> gt_bound (minTimeout (merge_options options)) (maxTimeout (merge_options options))"
    and "\<And>k. k \<in> {1, 2, 3, 4} \<Longrightarrow>
           input k = Throws (Failure (E k)) \<and> retryable (E k) \<and> message (E k) = m"
    and "\<And>a. onFailedAttempt (merge_options options) a = None"
    and "\<And>k. k \<in> {1, 2, 3} \<Longrightarrow>
           \<not> expired getTime k ((initial_state (merge_options options))\<lparr>operationStart := getTime 0\<rparr>)"
    and "m \<notin> set objectPrototypeKeys"
  shows "\<exists>r. retry input options getTime = ReturnsPromise r
     \<and> calls r = [1, 2, 3, 4]
     \<and> settled r = Rejected (Some (Failure (E 4))) \<and> message (E 4) = m
     \<and> observed r = [AttemptErrorObj m 1 3, AttemptErrorObj m 2 2,
                      AttemptErrorObj m 3 1, AttemptErrorObj m 4 0]
     \<and> map attemptNumber (observed r) = [1, 2, 3, 4]
     \<and> map retriesLeft (observed r) = [3, 2, 1, 0]"
proof -
  let ?opts = "merge_options options"
  let ?s = "(initial_state ?opts)\<lparr>operationStart := getTime 0\<rparr>"
  let ?r = "run_attempts input ?opts getTime ?s"
  have att: "attempts ?s = 1" and len: "length (timeouts ?s) = 3" and errs: "errors ?s = []"
    using assms(1) by simp_all
  have ks: "[attempts ?s ..< attempts ?s + length (timeouts ?s) + 1] = [1, 2, 3, 4]"
    unfolding att len by (simp add: upt_conv_Cons)
  let ?es = "map E [1, 2, 3, 4]"
  define acc where "acc = (if expired getTime (attempts ?s + length (timeouts ?s)) ?s
                 then [Error ''Maximum retry timeout reached''] else []) @ errors ?s @ ?es"
  have run: "?r = \<lparr>settled = Rejected (map_option Failure (mainError acc)),
          calls = [1, 2, 3, 4],
          observed = map (\<lambda>k. attemptErr_of ?opts k (E k)) [1, 2, 3, 4],
          timers = timeouts ?s,
          accumulator = acc\<rparr>"
  proof -
    have "?r = (let ks = [attempts ?s ..< attempts ?s + length (timeouts ?s) + 1];
          acc = (if expired getTime (attempts ?s + length (timeouts ?s)) ?s
                 then [Error ''Maximum retry timeout reached''] else [])
                @ errors ?s @ map E ks
      in \<lparr>settled = Rejected (map_option Failure (mainError acc)),
          calls = ks,
          observed = map (\<lambda>k. attemptErr_of ?opts k (E k)) ks,
          timers = timeouts ?s,
          accumulator = acc\<rparr>)"
    proof (rule run_exhausts)
      fix k assume "attempts ?s \<le> k" "k \<le> attempts ?s + length (timeouts ?s)"
      then have "k \<in> {1, 2, 3, 4}" unfolding att len by auto
      with assms(3)[of k] assms(4)
      show "input k = Throws (Failure (E k)) \<and> retryable (E k)
             \<and> onFailedAttempt ?opts (attemptErr_of ?opts k (E k)) = None"
        by simp
    next
      fix k assume "attempts ?s \<le> k" "k < attempts ?s + length (timeouts ?s)"
      then have "k \<in> {1, 2, 3}" unfolding att len by auto
      then show "\<not> expired getTime k ?s" by (rule assms(5))
    qed
    then show ?thesis unfolding ks acc_def by (simp only: Let_def)
  qed
  define es where "es = map E [1, 2, 3, 4]"
  have same: "\<forall>e\<in>set es. message e = m" and ne: "es \<noteq> []"
    using assms(3) by (simp_all add: es_def)
  have m1: "mainError es = Some (last es)"
    by (rule mainError_same[OF ne same assms(6)])
  have m2: "mainError (Error ''Maximum retry timeout reached'' # es) = Some (last es)"
    by (rule mainError_marker_same[OF ne same assms(6)])
  have "mainError ((if expired getTime (attempts ?s + length (timeouts ?s)) ?s
                 then [Error ''Maximum retry timeout reached''] else []) @ errors ?s @ es)
        = Some (last es)"
    unfolding errs using m1 m2 by simp
  moreover have "last es = E 4" by (simp add: es_def)
  ultimately have rep: "mainError acc = Some (E 4)"
    unfolding es_def acc_def by (simp only:)
  have msg: "message (E k) = m" if "k \<in> {1, 2, 3, 4}" for k
    using assms(3)[OF that] by simp
  have "retry input options getTime = ReturnsPromise ?r"
    by (rule retry_valid[OF assms(2)])
  moreover have "calls ?r = [1, 2, 3, 4]"
    by (subst run) simp
  moreover have "settled ?r = Rejected (Some (Failure (E 4)))"
    by (subst run) (simp add: rep)
  moreover have "observed ?r = [AttemptErrorObj m 1 3, AttemptErrorObj m 2 2,
                      AttemptErrorObj m 3 1, AttemptErrorObj m 4 0]"
    using msg[of 1] msg[of 2] msg[of 3] msg[of 4] assms(1)
    by (subst run) (simp add: attemptErr_of_def)
  ultimately show ?thesis
    using msg[of 4] by simp
qed

text \<open>
  Claim C1, as stated, fails: with the default \<open>retries = 3\<close> and an operation that
  always fails with \<open>Error('fixture')\<close> the observer is called four times, not three,
  the last time with \<open>attemptNumber = 4\<close> and \<open>retriesLeft = 0\<close>.
\<close>

theorem observer_called_four_times_counterexample:
  "retries (merge_options no_options) = 3
   \<and> retry (always_fails ''fixture'') no_options (\<lambda>n. 0)
     = ReturnsPromise
        \<lparr>settled = Rejected (Some (Failure (Error ''fixture''))),
         calls = [1, 2, 3, 4],
         observed = [AttemptErrorObj ''fixture'' 1 3, AttemptErrorObj ''fixture'' 2 2,
                     AttemptErrorObj ''fixture'' 3 1, AttemptErrorObj ''fixture'' 4 0],
         timers = [1000, 2000, 4000],
         accumulator = [Error ''fixture'', Error ''fixture'', Error ''fixture'',
                        Error ''fixture'']\<rparr>
   \<and> length [AttemptErrorObj ''fixture'' 1 3, AttemptErrorObj ''fixture'' 2 2,
              AttemptErrorObj ''fixture'' 3 1, AttemptErrorObj ''fixture'' 4 0] \<noteq> 3"
  using fixture_run by (simp add: merge_options_def no_options_def)

theorem exhaustion_after_four_attempts_witness:
  "\<exists>r. retry (always_fails ''fixture'') no_options (\<lambda>n. 0) = ReturnsPromise r
     \<and> calls r = [1, 2, 3, 4]
     \<and> settled r = Rejected (Some (Failure (Error ''fixture'')))
     \<and> observed r = [AttemptErrorObj ''fixture'' 1 3, AttemptErrorObj ''fixture'' 2 2,
                      AttemptErrorObj ''fixture'' 3 1, AttemptErrorObj ''fixture'' 4 0]
     \<and> map attemptNumber (observed r) = [1, 2, 3, 4]
     \<and> map retriesLeft (observed r) = [3, 2, 1, 0]"
proof -
  have h1: "retries (merge_options no_options) = 3"
    and h2: "\<not> gt_bound (minTimeout (merge_options no_options)) (maxTimeout (merge_options no_options))"
    and h4: "\<And>a. onFailedAttempt (merge_options no_options) a = None"
    by (simp_all add: merge_options_def no_options_def)
  have h3: "\<And>k. k \<in> {1, 2, 3, 4} \<Longrightarrow>
      always_fails ''fixture'' k = Throws (Failure ((\<lambda>k. Error ''fixture'') k))
      \<and> retryable ((\<lambda>k. Error ''fixture'') k) \<and> message ((\<lambda>k. Error ''fixture'') k) = ''fixture''"
    by (simp add: always_fails_def retryable_def)
  have h5: "\<And>k. k \<in> {1, 2, 3} \<Longrightarrow>
      \<not> expired (\<lambda>n. 0) k ((initial_state (merge_options no_options))\<lparr>operationStart := (\<lambda>n. 0) 0\<rparr>)"
    using expired_initial_clock_0 by simp
  have h6: "''fixture'' \<notin> set objectPrototypeKeys"
    by (simp add: objectPrototypeKeys_def)
  from exhaustion_after_four_attempts[of no_options "always_fails ''fixture''"
      "\<lambda>k. Error ''fixture''" "''fixture''" "\<lambda>n. 0", OF h1 h2 h3 h4 h5 h6]
  show ?thesis by simp
qed

text \<open>
  Claim C5, amended. With \<open>retries = 0\<close> the schedule is empty and
  \<open>maxRetryTime\<close> is \<open>undefined\<close>, so the test of the time budget is false whatever
  the clock reads. The operation is attempted exactly once; its first retryable failure
  is appended to the accumulator, no delay is left in the schedule, and the engine
  rejects with the representative of that one failure, which is the failure itself when
  its message is counted. No marker is prepended and no timer is set.
\<close>

theorem zero_retries_schedule_exhausted:
  assumes "retries (merge_options options) = 0"
    and "\<not> gt_bound (minTimeout (merge_options options)) (maxTimeout (merge_options options))"
    and "input 1 = Throws (Failure err)" and "retryable err"
    and "onFailedAttempt (merge_options options) (attemptErr_of (merge_options options) 1 err) = None"
  shows "timeouts (initial_state (merge_options options)) = []
    \<and> maxRetryTime (initial_state (merge_options options)) = None
    \<and> \<not> expired getTime 1 ((initial_state (merge_options options))\<lparr>operationStart := getTime 0\<rparr>)
    \<and> retry input options getTime =
        ReturnsPromise
          \<lparr>settled = Rejected (map_option Failure (mainError [err])), calls = [1],
           observed = [AttemptErrorObj (message err) 1 0], timers = [], accumulator = [err]\<rparr>
    \<and> (message err \<notin> set objectPrototypeKeys \<longrightarrow> mainError [err] = Some err)"
proof -
  let ?opts = "merge_options options"
  let ?s = "(initial_state ?opts)\<lparr>operationStart := getTime 0\<rparr>"
  have ts: "timeouts (initial_state ?opts) = []"
    using assms(1) by (simp add: timeouts_initial_state)
  have mrt: "maxRetryTime (initial_state ?opts) = None"
    using assms(1) by (simp add: initial_state_def last_entry_def Let_def)
  have ne: "\<not> expired getTime 1 ?s"
    using mrt by (simp add: expired_def)
  have att: "attempts ?s = 1" by simp
  have inp: "input (attempts ?s) = Throws (Failure err)"
    using assms(3) by simp
  have obs: "onFailedAttempt ?opts (attemptErr_of ?opts (attempts ?s) err) = None"
    using assms(5) by simp
  have ne': "\<not> expired getTime (attempts ?s) ?s" using ne by simp
  have ts': "timeouts ?s = []" using ts by simp
  from run_attempts_Settled[OF fn_schedule_empty[where input = input and n = "attempts ?s",
        OF inp assms(4) obs ne' ts']]
  have "run_attempts input ?opts getTime ?s =
      \<lparr>settled = Rejected (map_option Failure (mainError [err])), calls = [1],
           observed = [AttemptErrorObj (message err) 1 0], timers = [], accumulator = [err]\<rparr>"
    using assms(1) by (simp add: attemptErr_of_def)
  with retry_valid[OF assms(2), of input getTime]
  have "retry input options getTime =
        ReturnsPromise
          \<lparr>settled = Rejected (map_option Failure (mainError [err])), calls = [1],
           observed = [AttemptErrorObj (message err) 1 0], timers = [], accumulator = [err]\<rparr>"
    by simp
  moreover have "mainError [err] = Some err" if "message err \<notin> set objectPrototypeKeys"
    using that by (simp add: mainError_def next_count_def)
  ultimately show ?thesis using ts mrt ne by blast
qed

theorem zero_retries_schedule_exhausted_witness:
  "retries (merge_options zero_retries) = 0
   \<and> always_fails ''x'' 1 = Throws (Failure (Error ''x'')) \<and> retryable (Error ''x'')
   \<and> \<not> expired (\<lambda>n. int n * 5000) 1
        ((initial_state (merge_options zero_retries))\<lparr>operationStart := 0\<rparr>)
   \<and> retry (always_fails ''x'') zero_retries (\<lambda>n. int n * 5000) =
        ReturnsPromise
          \<lparr>settled = Rejected (Some (Failure (Error ''x''))), calls = [1],
           observed = [AttemptErrorObj ''x'' 1 0], timers = [], accumulator = [Error ''x'']\<rparr>"
proof -
  have h1: "retries (merge_options zero_retries) = 0"
    and h2: "\<not> gt_bound (minTimeout (merge_options zero_retries)) (maxTimeout (merge_options zero_retries))"
    and h5: "onFailedAttempt (merge_options zero_retries)
       (attemptErr_of (merge_options zero_retries) 1 (Error ''x'')) = None"
    by (simp_all add: merge_options_def zero_retries_def no_options_def)
  have h3: "always_fails ''x'' 1 = Throws (Failure (Error ''x''))"
    by (simp add: always_fails_def)
  have h4: "retryable (Error ''x'')" by (simp add: retryable_def)
  have k: "''x'' \<notin> set objectPrototypeKeys" by (simp add: objectPrototypeKeys_def)
  from zero_retries_schedule_exhausted[where input = "always_fails ''x''" and options = zero_retries
      and err = "Error ''x''" and getTime = "\<lambda>n. int n * 5000", OF h1 h2 h3 h4 h5] k h1 h3 h4
  show ?thesis by simp
qed

text \<open>
  Claim C5, as stated, fails: with \<open>retries = 0\<close> and a clock far beyond any
  budget, the time budget does not count as expired and the accumulator ends without
  the marker of the expired budget.
\<close>

theorem zero_retries_not_expired_counterexample:
  "retries (merge_options zero_retries) = 0
   \<and> \<not> expired (\<lambda>n. int n * 5000) 1
        ((initial_state (merge_options zero_retries))\<lparr>operationStart := 0\<rparr>)
   \<and> retry (always_fails ''x'') zero_retries (\<lambda>n. int n * 5000) =
        ReturnsPromise
          \<lparr>settled = Rejected (Some (Failure (Error ''x''))), calls = [1],
           observed = [AttemptErrorObj ''x'' 1 0], timers = [], accumulator = [Error ''x'']\<rparr>
   \<and> [Error ''x''] \<noteq> [Error ''Maximum retry timeout reached'', Error ''x'']"
  by (simp add: engine_eval zero_retries_def expired_def)

text \<open>
  Claim C4. There is an execution in which the time budget has expired when the first
  failure is handled, the marker \<open>Maximum retry timeout reached\<close> is prepended to the
  accumulator, and the engine rejects with that marker: the operation fails with a
  message that \<open>mainError\<close> does not count (here \<open>constructor\<close>), so the marker
  stays the representative.
\<close>

theorem timeout_marker_can_surface:
  "\<exists>(input :: nat \<Rightarrow> unit outcome) options getTime err r.
     input 1 = Throws (Failure err)
     \<and> expired getTime 1 ((initial_state (merge_options options))\<lparr>operationStart := getTime 0\<rparr>)
     \<and> retry input options getTime = ReturnsPromise r
     \<and> accumulator r = [Error ''Maximum retry timeout reached'', err]
     \<and> err \<noteq> Error ''Maximum retry timeout reached''
     \<and> settled r = Rejected (Some (Failure (Error ''Maximum retry timeout reached'')))"
proof -
  let ?r = "\<lparr>settled = Rejected (Some (Failure (Error ''Maximum retry timeout reached''))),
       calls = [1], observed = [AttemptErrorObj ''constructor'' 1 3], timers = [],
       accumulator = [Error ''Maximum retry timeout reached'', Error ''constructor'']\<rparr> :: unit run"
  have "retry (always_fails ''constructor'') no_options (\<lambda>n. int n * 5000) = ReturnsPromise ?r"
    by (simp add: engine_eval)
  moreover have "expired (\<lambda>n. int n * 5000) 1
      ((initial_state (merge_options no_options))\<lparr>operationStart := (\<lambda>n. int n * 5000) 0\<rparr>)"
    by (simp add: expired_def initial_state_def merge_options_def no_options_def
      generateTimeouts_def generateTimeouts_loop.simps Math_round_def last_entry_def Let_def)
  moreover have "always_fails ''constructor'' 1 = Throws (Failure (Error ''constructor''))"
    by (simp add: always_fails_def)
  ultimately show ?thesis
    by (intro exI[of _ "always_fails ''constructor''"] exI[of _ no_options]
        exI[of _ "\<lambda>n. int n * 5000"] exI[of _ "Error ''constructor''"] exI[of _ ?r]) simp
qed

section \<open>Invalid timeout bounds\<close>

text \<open>
  Claim C6, amended. When the merged options have \<open>minTimeout > maxTimeout\<close>, the
  configuration failure \<open>minTimeout must be less than maxTimeout\<close> is raised before
  any attempt: the operation and the observer are never called. The failure is raised
  inside the executor of the promise, so the call of \<open>retry\<close> returns a promise that
  is rejected with it.
\<close>

theorem invalid_timeouts_reject_promise:
  assumes "gt_bound (minTimeout (merge_options options)) (maxTimeout (merge_options options))"
  shows "retry input options getTime =
     ReturnsPromise
       \<lparr>settled = Rejected (Some (Failure (Error ''minTimeout must be less than maxTimeout''))),
        calls = [], observed = [], timers = [], accumulator = []\<rparr>"
  using assms by (simp add: retry_def new_Promise_def executor_def Let_def)

theorem invalid_timeouts_reject_promise_witness:
  "gt_bound (minTimeout (merge_options inverted_timeouts)) (maxTimeout (merge_options inverted_timeouts))
   \<and> retry (\<lambda>n. Returns ()) inverted_timeouts (\<lambda>n. 0) =
     ReturnsPromise
       \<lparr>settled = Rejected (Some (Failure (Error ''minTimeout must be less than maxTimeout''))),
        calls = [], observed = [], timers = [], accumulator = []\<rparr>"
proof -
  have h: "gt_bound (minTimeout (merge_options inverted_timeouts))
     (maxTimeout (merge_options inverted_timeouts))"
    by (simp add: merge_options_def inverted_timeouts_def no_options_def)
  from invalid_timeouts_reject_promise[OF h] h show ?thesis by blast
qed

text \<open>
  Claim C6, as stated, fails: with \<open>minTimeout = 2000\<close> and \<open>maxTimeout = 1000\<close>
  the call of \<open>retry\<close> does not throw to its caller; it returns a rejected promise.
\<close>

theorem invalid_timeouts_not_thrown_counterexample:
  "retry (\<lambda>n. Returns ()) inverted_timeouts (\<lambda>n. 0)
     \<noteq> ThrowsSync (Failure (Error ''minTimeout must be less than maxTimeout''))
   \<and> retry (\<lambda>n. Returns ()) inverted_timeouts (\<lambda>n. 0) =
     ReturnsPromise
       \<lparr>settled = Rejected (Some (Failure (Error ''minTimeout must be less than maxTimeout''))),
        calls = [], observed = [], timers = [], accumulator = []\<rparr>"
  by (simp add: retry_def new_Promise_def executor_def Let_def merge_options_def
      inverted_timeouts_def no_options_def)

end
